theory Spec2Isabelle
  imports Complex_Main
begin

section \<open>Values, errors and the annotated matrix\<close>

text \<open>
  The module \<^verbatim>\<open>simba/preprocessing/preprocess.py\<close> works on an annotated matrix
  (rows are samples, columns are features) that it mutates in place.  Every function
  below takes the container and returns the container after the call; a function that
  can raise also returns the exception, so that whatever was written before the raise
  stays visible in the returned container, as it does in Python.

  Numbers are real numbers: IEEE rounding and the 64-bit range of numpy's integers are
  not modelled.  The entries of the data matrix are finite.  A cell of a metadata column
  is a float that can also be one of the special values \<open>inf\<close>, \<open>-inf\<close>, \<open>nan\<close>,
  which a division by an empty dimension produces (numpy warns there and does not raise).
\<close>

datatype error =
  ValueError | KeyError | TypeError | IndexError | NotImplementedError | LocatorError

datatype fl = Fin real | PInf | NInf | NaN

text \<open>Float division \<open>a / b\<close> of two finite numbers, as numpy computes it.\<close>

definition fl_div :: "real \<Rightarrow> real \<Rightarrow> fl" where
  "fl_div a b =
     (if b \<noteq> 0 then Fin (a / b)
      else if a = 0 then NaN else if 0 < a then PInf else NInf)"

text \<open>A float cell divided by a dimension (a non-negative integer).\<close>

fun fl_div_nat :: "fl \<Rightarrow> nat \<Rightarrow> fl" where
  "fl_div_nat (Fin a) d = fl_div a (real d)"
| "fl_div_nat PInf d = PInf"
| "fl_div_nat NInf d = NInf"
| "fl_div_nat NaN d = NaN"

text \<open>The comparisons \<open>cell >= t\<close> and \<open>cell <= t\<close> with a finite threshold: false on nan.\<close>

fun fl_ge :: "real \<Rightarrow> fl \<Rightarrow> bool" where
  "fl_ge t (Fin a) = (t \<le> a)"
| "fl_ge t PInf = True"
| "fl_ge t NInf = False"
| "fl_ge t NaN = False"

fun fl_le :: "real \<Rightarrow> fl \<Rightarrow> bool" where
  "fl_le t (Fin a) = (a \<le> t)"
| "fl_le t PInf = False"
| "fl_le t NInf = True"
| "fl_le t NaN = False"

text \<open>A column of a metadata table: numeric or boolean.\<close>

datatype column = NumCol "fl list" | BoolCol "bool list"

text \<open>
  An array of \<open>obsm\<close>/\<open>varm\<close> carries its own shape: \<open>shape[0]\<close> is the number of
  rows, \<open>shape[1]\<close> the field \<open>ncols\<close> (a list of rows alone cannot tell the width
  of an array with no rows).
\<close>

record matrix =
  ncols :: nat
  mrows :: "real list list"

text \<open>
  The dictionary \<open>adata.uns['pca']\<close>.  Each key may be missing (\<open>None\<close>).  The value
  stored under \<open>'n_pcs'\<close> is itself optional: the elbow locator may return Python's
  \<open>None\<close>, and the code stores what it gets.
\<close>

record pca_dict =
  variance :: "real list option"
  variance_ratio :: "real list option"
  n_pcs :: "int option option"
  features :: "(string \<rightharpoonup> nat list) option"

text \<open>
  The container.  Its shape is read off the two name indexes, as AnnData does:
  \<open>adata.shape = (len(obs_names), len(var_names))\<close>.  The entries of \<open>adata.X\<close> are
  in \<open>X\<close>; \<open>issparse\<close> tells how they are stored, as a scipy \<open>csr_matrix\<close> or as a
  numpy \<open>ndarray\<close>.
\<close>

record adata =
  X :: "real list list"
  obs_names :: "string list"
  var_names :: "string list"
  obs :: "string \<rightharpoonup> column"
  var :: "string \<rightharpoonup> column"
  layers :: "string \<rightharpoonup> real list list"
  obsm :: "string \<rightharpoonup> matrix"
  varm :: "string \<rightharpoonup> matrix"
  uns_pca :: "pca_dict option"
  issparse :: bool

definition shape0 :: "adata \<Rightarrow> nat" where
  "shape0 ad = length (obs_names ad)"

definition shape1 :: "adata \<Rightarrow> nat" where
  "shape1 ad = length (var_names ad)"

text \<open>
  The container's invariant: the matrix, every layer, every metadata column and every
  \<open>obsm\<close>/\<open>varm\<close> array is aligned with the name indexes.
\<close>

definition col_len :: "column \<Rightarrow> nat" where
  "col_len c = (case c of NumCol xs \<Rightarrow> length xs | BoolCol bs \<Rightarrow> length bs)"

definition aligned :: "nat \<Rightarrow> nat \<Rightarrow> real list list \<Rightarrow> bool" where
  "aligned n m rows = (length rows = n \<and> list_all (\<lambda>r. length r = m) rows)"

definition wf_adata :: "adata \<Rightarrow> bool" where
  "wf_adata ad =
     (aligned (shape0 ad) (shape1 ad) (X ad) \<and>
      (\<forall>k rows. layers ad k = Some rows \<longrightarrow> aligned (shape0 ad) (shape1 ad) rows) \<and>
      (\<forall>k c. obs ad k = Some c \<longrightarrow> col_len c = shape0 ad) \<and>
      (\<forall>k c. var ad k = Some c \<longrightarrow> col_len c = shape1 ad) \<and>
      (\<forall>k a. obsm ad k = Some a \<longrightarrow> aligned (shape0 ad) (ncols a) (mrows a)) \<and>
      (\<forall>k a. varm ad k = Some a \<longrightarrow> aligned (shape1 ad) (ncols a) (mrows a)))"

section \<open>Array primitives\<close>

text \<open>\<open>X.sum(axis=1)\<close> and \<open>X.sum(axis=0)\<close>; the width \<open>m\<close> is \<open>shape[1]\<close>.\<close>

definition row_sums :: "real list list \<Rightarrow> real list" where
  "row_sums rows = map sum_list rows"

definition col_sums :: "nat \<Rightarrow> real list list \<Rightarrow> real list" where
  "col_sums m rows = map (\<lambda>j. sum_list (map (\<lambda>r. r ! j) rows)) [0..<m]"

text \<open>\<open>(X >= expr_cutoff).sum(axis=1)\<close> and \<open>(X >= expr_cutoff).sum(axis=0)\<close>.\<close>

definition row_counts :: "real \<Rightarrow> real list list \<Rightarrow> nat list" where
  "row_counts cutoff rows = map (\<lambda>r. length (filter (\<lambda>v. cutoff \<le> v) r)) rows"

definition col_counts :: "real \<Rightarrow> nat \<Rightarrow> real list list \<Rightarrow> nat list" where
  "col_counts cutoff m rows =
     map (\<lambda>j. length (filter (\<lambda>r. cutoff \<le> r ! j) rows)) [0..<m]"

text \<open>
  \<open>counts / d\<close> for a dimension \<open>d\<close>: true division, elementwise.
\<close>

definition pct :: "nat list \<Rightarrow> nat \<Rightarrow> fl list" where
  "pct counts d = map (\<lambda>c. fl_div (real c) (real d)) counts"

definition num_col :: "real list \<Rightarrow> column" where
  "num_col xs = NumCol (map Fin xs)"

definition count_col :: "nat list \<Rightarrow> column" where
  "count_col cs = NumCol (map (\<lambda>c. Fin (real c)) cs)"

section \<open>Quality-control metrics\<close>

text \<open>
  \<open>cal_qc(adata, expr_cutoff=1)\<close>.  The conversion of \<open>adata.X\<close> to a sparse
  matrix (\<open>as_csr\<close>, the first statement) changes the storage only, not an entry.
  The sums are flattened with \<open>.A1\<close> before they are stored.  The six assignments are
  made in the source's order.
\<close>

definition as_csr :: "adata \<Rightarrow> adata" where
  "as_csr ad = (if \<not> issparse ad then ad\<lparr>issparse := True\<rparr> else ad)"

definition cal_qc :: "adata \<Rightarrow> real \<Rightarrow> adata" where
  "cal_qc ad expr_cutoff =
     (let ad = as_csr ad;
          n_counts = col_sums (shape1 ad) (X ad);
          ad = ad\<lparr>var := (var ad)(''n_counts'' \<mapsto> num_col n_counts)\<rparr>;
          n_samples = col_counts expr_cutoff (shape1 ad) (X ad);
          ad = ad\<lparr>var := (var ad)(''n_samples'' \<mapsto> count_col n_samples)\<rparr>;
          ad = ad\<lparr>var := (var ad)(''pct_samples'' \<mapsto> NumCol (pct n_samples (shape0 ad)))\<rparr>;
          n_counts = row_sums (X ad);
          ad = ad\<lparr>obs := (obs ad)(''n_counts'' \<mapsto> num_col n_counts)\<rparr>;
          n_features = row_counts expr_cutoff (X ad);
          ad = ad\<lparr>obs := (obs ad)(''n_features'' \<mapsto> count_col n_features)\<rparr>;
          ad = ad\<lparr>obs := (obs ad)(''pct_features'' \<mapsto> NumCol (pct n_features (shape1 ad)))\<rparr>
      in ad)"






section \<open>Normalization\<close>

text \<open>
  \<open>normalize(adata, method='lib_size', scale_factor=1e4, save_raw=True)\<close>.  The helper
  \<open>cal_tf_idf\<close> lives in \<open>_utils\<close>, which is not among the sources: it is a
  parameter here, and it may raise.  In the \<open>lib_size\<close> branch every row is divided
  by its sum and multiplied by the scale factor; a row whose sum is 0 leaves the model
  (numpy fills it with \<open>nan\<close>/\<open>inf\<close>).
\<close>

definition normalize ::
  "(real list list \<Rightarrow> error + real list list) \<Rightarrow> adata \<Rightarrow> string \<Rightarrow> real \<Rightarrow> bool \<Rightarrow>
   adata \<times> error option" where
  "normalize cal_tf_idf ad method scale_factor save_raw =
     (if method \<notin> set [''lib_size'', ''tf_idf''] then (ad, Some ValueError)
      else
        let ad = (if save_raw then ad\<lparr>layers := (layers ad)(''raw'' \<mapsto> X ad)\<rparr> else ad);
            ad = (if method = ''lib_size''
                  then ad\<lparr>X := map (\<lambda>r. map (\<lambda>v. v / sum_list r * scale_factor) r) (X ad)\<rparr>
                  else ad)
        in if method = ''tf_idf''
           then (case cal_tf_idf (X ad) of
                   Inl e \<Rightarrow> (ad, Some e)
                 | Inr Y \<Rightarrow> (ad\<lparr>X := Y\<rparr>, None))
           else (ad, None))"

section \<open>Threshold filters\<close>

text \<open>Indexing by a boolean mask, \<open>xs[keep]\<close>: the entries at which \<open>keep\<close> is true.\<close>

definition bool_index :: "bool list \<Rightarrow> 'a list \<Rightarrow> 'a list" where
  "bool_index keep xs = map fst (filter snd (zip xs keep))"

definition index_column :: "bool list \<Rightarrow> column \<Rightarrow> column" where
  "index_column keep c =
     (case c of
        NumCol xs \<Rightarrow> NumCol (bool_index keep xs)
      | BoolCol bs \<Rightarrow> BoolCol (bool_index keep bs))"

text \<open>
  The container's \<open>_inplace_subset_obs\<close> and \<open>_inplace_subset_var\<close>: everything
  aligned with the axis is cut to the mask.
\<close>

definition inplace_subset_obs :: "adata \<Rightarrow> bool list \<Rightarrow> adata" where
  "inplace_subset_obs ad keep =
     ad\<lparr>X := bool_index keep (X ad),
        obs_names := bool_index keep (obs_names ad),
        obs := map_option (index_column keep) \<circ> obs ad,
        layers := map_option (bool_index keep) \<circ> layers ad,
        obsm := map_option (\<lambda>a. a\<lparr>mrows := bool_index keep (mrows a)\<rparr>) \<circ> obsm ad\<rparr>"

definition inplace_subset_var :: "adata \<Rightarrow> bool list \<Rightarrow> adata" where
  "inplace_subset_var ad keep =
     ad\<lparr>X := map (bool_index keep) (X ad),
        var_names := bool_index keep (var_names ad),
        var := map_option (index_column keep) \<circ> var ad,
        layers := map_option (map (bool_index keep)) \<circ> layers ad,
        varm := map_option (\<lambda>a. a\<lparr>mrows := bool_index keep (mrows a)\<rparr>) \<circ> varm ad\<rparr>"

text \<open>A column read as numbers (a boolean counts as 0 or 1), and its comparisons.\<close>

definition as_num :: "column \<Rightarrow> fl list" where
  "as_num c =
     (case c of NumCol xs \<Rightarrow> xs | BoolCol bs \<Rightarrow> map (\<lambda>b. Fin (if b then 1 else 0)) bs)"

definition ge_mask :: "column \<Rightarrow> real \<Rightarrow> bool list" where
  "ge_mask c t = map (fl_ge t) (as_num c)"

definition le_mask :: "column \<Rightarrow> real \<Rightarrow> bool list" where
  "le_mask c t = map (fl_le t) (as_num c)"

text \<open>Elementwise \<open>&\<close> of two boolean arrays.\<close>

definition vand :: "bool list \<Rightarrow> bool list \<Rightarrow> bool list" where
  "vand a b = map2 (\<and>) a b"

text \<open>\<open>column / d\<close> for a dimension \<open>d\<close>.\<close>

definition col_div :: "column \<Rightarrow> nat \<Rightarrow> column" where
  "col_div c d = NumCol (map (\<lambda>v. fl_div_nat v d) (as_num c))"

text \<open>\<open>.astype(int)\<close> truncates towards zero.\<close>

definition trunc :: "real \<Rightarrow> int" where
  "trunc x = (if 0 \<le> x then \<lfloor>x\<rfloor> else \<lceil>x\<rceil>)"

definition int_col :: "real list \<Rightarrow> column" where
  "int_col xs = NumCol (map (\<lambda>x. Fin (of_int (trunc x))) xs)"

text \<open>
  What a local variable of a filter holds.  A column read from a metadata table is a
  pandas \<open>Series\<close>.  \<open>np.sum(adata.X, axis=k)\<close> is a 1-D \<open>ndarray\<close> when \<open>adata.X\<close> is
  an \<open>ndarray\<close>.  When \<open>adata.X\<close> is a \<open>csr_matrix\<close> it is a 2-D \<open>np.matrix\<close> with one
  column (\<open>axis=1\<close>) or one row (\<open>axis=0\<close>): the filters, unlike \<open>cal_qc\<close>, do not
  flatten it with \<open>.A1\<close>.  In each case the entries are listed along the axis.
\<close>

datatype 'a arr = Series 'a | Ndarray 'a | Matrix 'a

fun entries :: "'a arr \<Rightarrow> 'a" where
  "entries (Series c) = c"
| "entries (Ndarray c) = c"
| "entries (Matrix c) = c"

text \<open>
  \<open>np.sum(adata.X, axis=k).astype(int)\<close> and
  \<open>np.sum(adata.X >= expr_cutoff, axis=k).astype(int)\<close>, given the entries of the result.
  scipy refuses to compare a sparse matrix with the scalar 0 by \<open>>=\<close>
  (\<open>NotImplementedError\<close>); with any other scalar the comparison is made.
\<close>

definition np_sum :: "adata \<Rightarrow> column \<Rightarrow> column arr" where
  "np_sum ad c = (if issparse ad then Matrix c else Ndarray c)"

definition np_sum_ge :: "adata \<Rightarrow> real \<Rightarrow> column \<Rightarrow> error + column arr" where
  "np_sum_ge ad expr_cutoff c =
     (if issparse ad \<and> expr_cutoff = 0 then Inl NotImplementedError else Inr (np_sum ad c))"

text \<open>
  The idiom
  \<^verbatim>\<open>if key in adata.obs_keys(): c = adata.obs[key]
else: c = <computed>; adata.obs[key] = c\<close>
  and the same on \<open>var\<close>.  The stored column wins, whatever it holds.  Otherwise the
  value is computed, which may raise, and assigned to the table, and the local variable
  keeps the value as computed.  pandas accepts a matrix of one column as a column of the
  table when it has as many rows as the table.  On \<open>var\<close> the matrix has one row: its
  length is 1, and pandas raises \<open>ValueError\<close> unless the table has exactly one row.
  The result is the container and either the exception or the value of the local
  variable.
\<close>

definition obs_value :: "adata \<Rightarrow> string \<Rightarrow> error + column arr \<Rightarrow> adata \<times> (error + column arr)" where
  "obs_value ad key computed =
     (case obs ad key of
        Some c \<Rightarrow> (ad, Inr (Series c))
      | None \<Rightarrow>
          (case computed of
             Inl e \<Rightarrow> (ad, Inl e)
           | Inr v \<Rightarrow> (ad\<lparr>obs := (obs ad)(key \<mapsto> entries v)\<rparr>, Inr v)))"

definition var_value :: "adata \<Rightarrow> string \<Rightarrow> error + column arr \<Rightarrow> adata \<times> (error + column arr)" where
  "var_value ad key computed =
     (case var ad key of
        Some c \<Rightarrow> (ad, Inr (Series c))
      | None \<Rightarrow>
          (case computed of
             Inl e \<Rightarrow> (ad, Inl e)
           | Inr v \<Rightarrow>
               (case v of
                  Matrix c \<Rightarrow>
                    if shape1 ad = 1 then (ad\<lparr>var := (var ad)(key \<mapsto> c)\<rparr>, Inr v)
                    else (ad, Inl ValueError)
                | _ \<Rightarrow> (ad\<lparr>var := (var ad)(key \<mapsto> entries v)\<rparr>, Inr v))))"

text \<open>The tests \<open>v >= t\<close> and \<open>v <= t\<close>, and \<open>v / d\<close>: each keeps the kind of \<open>v\<close>.\<close>

definition ge_test :: "column arr \<Rightarrow> real \<Rightarrow> bool list arr" where
  "ge_test v t = map_arr (\<lambda>c. ge_mask c t) v"

definition le_test :: "column arr \<Rightarrow> real \<Rightarrow> bool list arr" where
  "le_test v t = map_arr (\<lambda>c. le_mask c t) v"

definition divided :: "column arr \<Rightarrow> nat \<Rightarrow> column arr" where
  "divided v d = map_arr (\<lambda>c. col_div c d) v"

text \<open>
  The subset under construction: the 1-D array it starts as, a \<open>Series\<close>, or a square
  \<open>np.matrix\<close> given by its rows.  \<open>test & subset\<close>:
  \<^item> 1-D operands are combined entry by entry, and the result is a \<open>Series\<close> as soon as
    one of them is;
  \<^item> a matrix of one column and a 1-D array of the same length broadcast to a square
    matrix, whose entry \<open>(i, j)\<close> combines entry \<open>i\<close> of the column with entry \<open>j\<close> of
    the array; with a square matrix the column combines along the rows;
  \<^item> a 1-D array against a square matrix combines along the columns;
  \<^item> when one operand is a \<open>Series\<close> and the other a matrix, pandas computes the 2-D
    result and fails to wrap it into a \<open>Series\<close> (\<open>ValueError\<close>).
  On \<open>var\<close> a matrix of one row is met only when the table has one row, where it is
  also a matrix of one column.
\<close>

datatype subset = Array1 "bool list" | Series1 "bool list" | Square "bool list list"

fun band :: "bool list arr \<Rightarrow> subset \<Rightarrow> error + subset" where
  "band (Ndarray a) (Array1 m) = Inr (Array1 (vand a m))"
| "band (Ndarray a) (Series1 m) = Inr (Series1 (vand a m))"
| "band (Ndarray a) (Square g) = Inr (Square (map (vand a) g))"
| "band (Series a) (Array1 m) = Inr (Series1 (vand a m))"
| "band (Series a) (Series1 m) = Inr (Series1 (vand a m))"
| "band (Series a) (Square g) = Inl ValueError"
| "band (Matrix a) (Array1 m) = Inr (Square (map (\<lambda>b. map (\<lambda>x. b \<and> x) m) a))"
| "band (Matrix a) (Series1 m) = Inl ValueError"
| "band (Matrix a) (Square g) = Inr (Square (map2 (\<lambda>b. map (\<lambda>x. b \<and> x)) a g))"

text \<open>
  The idiom
  \<^verbatim>\<open>if t is not None: print(msg); subset = test(t) & subset\<close>
  on the pair of the subset (or the exception raised so far) and the lines printed so
  far.  After a raise nothing more is executed.
\<close>

definition threshold ::
  "real option \<Rightarrow> string \<Rightarrow> (real \<Rightarrow> bool list arr) \<Rightarrow> (error + subset) \<times> string list \<Rightarrow>
   (error + subset) \<times> string list" where
  "threshold t msg test st =
     (case t of
        None \<Rightarrow> st
      | Some v \<Rightarrow>
          (case fst st of
             Inl e \<Rightarrow> st
           | Inr m \<Rightarrow> (band (test v) m, snd st @ [msg])))"

text \<open>
  How the container reads a boolean index for an axis of length \<open>n\<close>: a 1-D array or
  a \<open>Series\<close> as it is; a matrix of shape \<open>(n, 1)\<close> or \<open>(1, n)\<close> flattened, which a square
  matrix is when \<open>n = 1\<close>; any other matrix is refused with \<open>IndexError\<close>.
\<close>

fun bool_indexer :: "nat \<Rightarrow> subset \<Rightarrow> error + bool list" where
  "bool_indexer n (Array1 m) = Inr m"
| "bool_indexer n (Series1 m) = Inr m"
| "bool_indexer n (Square g) = (if n = 1 \<and> length g = 1 then Inr (concat g) else Inl IndexError)"

text \<open>
  \<open>adata._inplace_subset_obs(cell_subset)\<close> and \<open>adata._inplace_subset_var(feature_subset)\<close>
  at the end of the six guarded statements: nothing is done after a raise, and the
  container may refuse the index.
\<close>

definition subset_obs :: "adata \<Rightarrow> error + subset \<Rightarrow> adata \<times> error option" where
  "subset_obs ad cell_subset =
     (case cell_subset of
        Inl e \<Rightarrow> (ad, Some e)
      | Inr m \<Rightarrow>
          (case bool_indexer (length (obs_names ad)) m of
             Inl e \<Rightarrow> (ad, Some e)
           | Inr keep \<Rightarrow> (inplace_subset_obs ad keep, None)))"

definition subset_var :: "adata \<Rightarrow> error + subset \<Rightarrow> adata \<times> error option" where
  "subset_var ad feature_subset =
     (case feature_subset of
        Inl e \<Rightarrow> (ad, Some e)
      | Inr m \<Rightarrow>
          (case bool_indexer (length (var_names ad)) m of
             Inl e \<Rightarrow> (ad, Some e)
           | Inr keep \<Rightarrow> (inplace_subset_var ad keep, None)))"

text \<open>\<open>str(n)\<close> of a non-negative integer.\<close>

fun show_nat :: "nat \<Rightarrow> string" where
  "show_nat n =
     (if n < 10 then [char_of (48 + n)]
      else show_nat (n div 10) @ [char_of (48 + n mod 10)])"

declare show_nat.simps [simp del]

text \<open>
  The three filters of samples.  Each returns the container, the lines it printed and
  the exception it raised, if any.  The test for 'no threshold given' counts the
  \<open>None\<close>s among the six, as the source does.
\<close>

definition filter_samples ::
  "adata \<Rightarrow> real option \<Rightarrow> real option \<Rightarrow> real option \<Rightarrow> real option \<Rightarrow>
   real option \<Rightarrow> real option \<Rightarrow> real \<Rightarrow> adata \<times> string list \<times> error option" where
  "filter_samples ad min_n_features max_n_features min_pct_features max_pct_features min_n_counts max_n_counts expr_cutoff =
     (case obs_value ad ''n_counts'' (Inr (np_sum ad (int_col (row_sums (X ad))))) of
        (ad, Inl e) \<Rightarrow> (ad, [], Some e)
      | (ad, Inr n_counts) \<Rightarrow>
     (case obs_value ad ''n_features'' (np_sum_ge ad expr_cutoff (count_col (row_counts expr_cutoff (X ad)))) of
        (ad, Inl e) \<Rightarrow> (ad, [], Some e)
      | (ad, Inr n_features) \<Rightarrow>
     (case obs_value ad ''pct_features'' (Inr (divided n_features (shape1 ad))) of
        (ad, Inl e) \<Rightarrow> (ad, [], Some e)
      | (ad, Inr pct_features) \<Rightarrow>
          if length (filter (\<lambda>x. x = None)
                      [min_n_features, min_pct_features, min_n_counts,
                       max_n_features, max_pct_features, max_n_counts]) = 6
          then (ad, [''No filtering''], None)
          else
            let st = (Inr (Array1 (replicate (length (obs_names ad)) True)), []);
                st = threshold min_n_features ''filter samples based on min_n_features'' (ge_test n_features) st;
                st = threshold max_n_features ''filter samples based on max_n_features'' (le_test n_features) st;
                st = threshold min_pct_features ''filter samples based on min_pct_features'' (ge_test pct_features) st;
                st = threshold max_pct_features ''filter samples based on max_pct_features'' (le_test pct_features) st;
                st = threshold min_n_counts ''filter samples based on min_n_counts'' (ge_test n_counts) st;
                st = threshold max_n_counts ''filter samples based on max_n_counts'' (le_test n_counts) st
            in (case subset_obs ad (fst st) of
                  (ad, Some e) \<Rightarrow> (ad, snd st, Some e)
                | (ad, None) \<Rightarrow>
                    (ad, snd st @ [''after filtering out low-quality samples: '',
                       show_nat (shape0 ad) @ '' samples, '' @ show_nat (shape1 ad) @ '' feature''],
                     None)))))"

definition filter_cells_rna ::
  "adata \<Rightarrow> real option \<Rightarrow> real option \<Rightarrow> real option \<Rightarrow> real option \<Rightarrow>
   real option \<Rightarrow> real option \<Rightarrow> real \<Rightarrow> adata \<times> string list \<times> error option" where
  "filter_cells_rna ad min_n_genes max_n_genes min_pct_genes max_pct_genes min_n_counts max_n_counts expr_cutoff =
     (case obs_value ad ''n_counts'' (Inr (np_sum ad (int_col (row_sums (X ad))))) of
        (ad, Inl e) \<Rightarrow> (ad, [], Some e)
      | (ad, Inr n_counts) \<Rightarrow>
     (case obs_value ad ''n_genes'' (np_sum_ge ad expr_cutoff (count_col (row_counts expr_cutoff (X ad)))) of
        (ad, Inl e) \<Rightarrow> (ad, [], Some e)
      | (ad, Inr n_genes) \<Rightarrow>
     (case obs_value ad ''pct_genes'' (Inr (divided n_genes (shape1 ad))) of
        (ad, Inl e) \<Rightarrow> (ad, [], Some e)
      | (ad, Inr pct_genes) \<Rightarrow>
          if length (filter (\<lambda>x. x = None)
                      [min_n_genes, min_pct_genes, min_n_counts,
                       max_n_genes, max_pct_genes, max_n_counts]) = 6
          then (ad, [''No filtering''], None)
          else
            let st = (Inr (Array1 (replicate (length (obs_names ad)) True)), []);
                st = threshold min_n_genes ''filter cells based on min_n_genes'' (ge_test n_genes) st;
                st = threshold max_n_genes ''filter cells based on max_n_genes'' (le_test n_genes) st;
                st = threshold min_pct_genes ''filter cells based on min_pct_genes'' (ge_test pct_genes) st;
                st = threshold max_pct_genes ''filter cells based on max_pct_genes'' (le_test pct_genes) st;
                st = threshold min_n_counts ''filter cells based on min_n_counts'' (ge_test n_counts) st;
                st = threshold max_n_counts ''filter cells based on max_n_counts'' (le_test n_counts) st
            in (case subset_obs ad (fst st) of
                  (ad, Some e) \<Rightarrow> (ad, snd st, Some e)
                | (ad, None) \<Rightarrow>
                    (ad, snd st @ [''after filtering out low-quality cells: '',
                       show_nat (shape0 ad) @ '' cells,  '' @ show_nat (shape1 ad) @ '' genes''],
                     None)))))"

definition filter_cells_atac ::
  "adata \<Rightarrow> real option \<Rightarrow> real option \<Rightarrow> real option \<Rightarrow> real option \<Rightarrow>
   real option \<Rightarrow> real option \<Rightarrow> real \<Rightarrow> adata \<times> string list \<times> error option" where
  "filter_cells_atac ad min_n_peaks max_n_peaks min_pct_peaks max_pct_peaks min_n_counts max_n_counts expr_cutoff =
     (case obs_value ad ''n_counts'' (Inr (np_sum ad (int_col (row_sums (X ad))))) of
        (ad, Inl e) \<Rightarrow> (ad, [], Some e)
      | (ad, Inr n_counts) \<Rightarrow>
     (case obs_value ad ''n_peaks'' (np_sum_ge ad expr_cutoff (count_col (row_counts expr_cutoff (X ad)))) of
        (ad, Inl e) \<Rightarrow> (ad, [], Some e)
      | (ad, Inr n_peaks) \<Rightarrow>
     (case obs_value ad ''pct_peaks'' (Inr (divided n_peaks (shape1 ad))) of
        (ad, Inl e) \<Rightarrow> (ad, [], Some e)
      | (ad, Inr pct_peaks) \<Rightarrow>
          if length (filter (\<lambda>x. x = None)
                      [min_n_peaks, min_pct_peaks, min_n_counts,
                       max_n_peaks, max_pct_peaks, max_n_counts]) = 6
          then (ad, [''No filtering''], None)
          else
            let st = (Inr (Array1 (replicate (length (obs_names ad)) True)), []);
                st = threshold min_n_peaks ''filter cells based on min_n_peaks'' (ge_test n_peaks) st;
                st = threshold max_n_peaks ''filter cells based on max_n_peaks'' (le_test n_peaks) st;
                st = threshold min_pct_peaks ''filter cells based on min_pct_peaks'' (ge_test pct_peaks) st;
                st = threshold max_pct_peaks ''filter cells based on max_pct_peaks'' (le_test pct_peaks) st;
                st = threshold min_n_counts ''filter cells based on min_n_counts'' (ge_test n_counts) st;
                st = threshold max_n_counts ''filter cells based on max_n_counts'' (le_test n_counts) st
            in (case subset_obs ad (fst st) of
                  (ad, Some e) \<Rightarrow> (ad, snd st, Some e)
                | (ad, None) \<Rightarrow>
                    (ad, snd st @ [''after filtering out low-quality cells: '',
                       show_nat (shape0 ad) @ '' cells,  '' @ show_nat (shape1 ad) @ '' peaks''],
                     None)))))"

text \<open>The three filters of features.\<close>

definition filter_genes ::
  "adata \<Rightarrow> real option \<Rightarrow> real option \<Rightarrow> real option \<Rightarrow> real option \<Rightarrow>
   real option \<Rightarrow> real option \<Rightarrow> real \<Rightarrow> adata \<times> string list \<times> error option" where
  "filter_genes ad min_n_cells max_n_cells min_pct_cells max_pct_cells min_n_counts max_n_counts expr_cutoff =
     (case var_value ad ''n_counts'' (Inr (np_sum ad (int_col (col_sums (shape1 ad) (X ad))))) of
        (ad, Inl e) \<Rightarrow> (ad, [], Some e)
      | (ad, Inr n_counts) \<Rightarrow>
     (case var_value ad ''n_cells'' (np_sum_ge ad expr_cutoff (count_col (col_counts expr_cutoff (shape1 ad) (X ad)))) of
        (ad, Inl e) \<Rightarrow> (ad, [], Some e)
      | (ad, Inr n_cells) \<Rightarrow>
     (case var_value ad ''pct_cells'' (Inr (divided n_cells (shape0 ad))) of
        (ad, Inl e) \<Rightarrow> (ad, [], Some e)
      | (ad, Inr pct_cells) \<Rightarrow>
          if length (filter (\<lambda>x. x = None)
                      [min_n_cells, min_pct_cells, min_n_counts,
                       max_n_cells, max_pct_cells, max_n_counts]) = 6
          then (ad, [''No filtering''], None)
          else
            let st = (Inr (Array1 (replicate (length (var_names ad)) True)), []);
                st = threshold min_n_cells ''Filter genes based on min_n_cells'' (ge_test n_cells) st;
                st = threshold max_n_cells ''Filter genes based on max_n_cells'' (le_test n_cells) st;
                st = threshold min_pct_cells ''Filter genes based on min_pct_cells'' (ge_test pct_cells) st;
                st = threshold max_pct_cells ''Filter genes based on max_pct_cells'' (le_test pct_cells) st;
                st = threshold min_n_counts ''Filter genes based on min_n_counts'' (ge_test n_counts) st;
                st = threshold max_n_counts ''Filter genes based on max_n_counts'' (le_test n_counts) st
            in (case subset_var ad (fst st) of
                  (ad, Some e) \<Rightarrow> (ad, snd st, Some e)
                | (ad, None) \<Rightarrow>
                    (ad, snd st @ [''After filtering out low-expressed genes: '',
                       show_nat (shape0 ad) @ '' cells, '' @ show_nat (shape1 ad) @ '' genes''],
                     None)))))"

definition filter_peaks ::
  "adata \<Rightarrow> real option \<Rightarrow> real option \<Rightarrow> real option \<Rightarrow> real option \<Rightarrow>
   real option \<Rightarrow> real option \<Rightarrow> real \<Rightarrow> adata \<times> string list \<times> error option" where
  "filter_peaks ad min_n_cells max_n_cells min_pct_cells max_pct_cells min_n_counts max_n_counts expr_cutoff =
     (case var_value ad ''n_counts'' (Inr (np_sum ad (int_col (col_sums (shape1 ad) (X ad))))) of
        (ad, Inl e) \<Rightarrow> (ad, [], Some e)
      | (ad, Inr n_counts) \<Rightarrow>
     (case var_value ad ''n_cells'' (np_sum_ge ad expr_cutoff (count_col (col_counts expr_cutoff (shape1 ad) (X ad)))) of
        (ad, Inl e) \<Rightarrow> (ad, [], Some e)
      | (ad, Inr n_cells) \<Rightarrow>
     (case var_value ad ''pct_cells'' (Inr (divided n_cells (shape0 ad))) of
        (ad, Inl e) \<Rightarrow> (ad, [], Some e)
      | (ad, Inr pct_cells) \<Rightarrow>
          if length (filter (\<lambda>x. x = None)
                      [min_n_cells, min_pct_cells, min_n_counts,
                       max_n_cells, max_pct_cells, max_n_counts]) = 6
          then (ad, [''No filtering''], None)
          else
            let st = (Inr (Array1 (replicate (length (var_names ad)) True)), []);
                st = threshold min_n_cells ''Filter peaks based on min_n_cells'' (ge_test n_cells) st;
                st = threshold max_n_cells ''Filter peaks based on max_n_cells'' (le_test n_cells) st;
                st = threshold min_pct_cells ''Filter peaks based on min_pct_cells'' (ge_test pct_cells) st;
                st = threshold max_pct_cells ''Filter peaks based on max_pct_cells'' (le_test pct_cells) st;
                st = threshold min_n_counts ''Filter peaks based on min_n_counts'' (ge_test n_counts) st;
                st = threshold max_n_counts ''Filter peaks based on max_n_counts'' (le_test n_counts) st
            in (case subset_var ad (fst st) of
                  (ad, Some e) \<Rightarrow> (ad, snd st, Some e)
                | (ad, None) \<Rightarrow>
                    (ad, snd st @ [''After filtering out low-expressed peaks: '',
                       show_nat (shape0 ad) @ '' cells, '' @ show_nat (shape1 ad) @ '' peaks''],
                     None)))))"

definition filter_features ::
  "adata \<Rightarrow> real option \<Rightarrow> real option \<Rightarrow> real option \<Rightarrow> real option \<Rightarrow>
   real option \<Rightarrow> real option \<Rightarrow> real \<Rightarrow> adata \<times> string list \<times> error option" where
  "filter_features ad min_n_samples max_n_samples min_pct_samples max_pct_samples min_n_counts max_n_counts expr_cutoff =
     (case var_value ad ''n_counts'' (Inr (np_sum ad (int_col (col_sums (shape1 ad) (X ad))))) of
        (ad, Inl e) \<Rightarrow> (ad, [], Some e)
      | (ad, Inr n_counts) \<Rightarrow>
     (case var_value ad ''n_samples'' (np_sum_ge ad expr_cutoff (count_col (col_counts expr_cutoff (shape1 ad) (X ad)))) of
        (ad, Inl e) \<Rightarrow> (ad, [], Some e)
      | (ad, Inr n_samples) \<Rightarrow>
     (case var_value ad ''pct_samples'' (Inr (divided n_samples (shape0 ad))) of
        (ad, Inl e) \<Rightarrow> (ad, [], Some e)
      | (ad, Inr pct_samples) \<Rightarrow>
          if length (filter (\<lambda>x. x = None)
                      [min_n_samples, min_pct_samples, min_n_counts,
                       max_n_samples, max_pct_samples, max_n_counts]) = 6
          then (ad, [''No filtering''], None)
          else
            let st = (Inr (Array1 (replicate (length (var_names ad)) True)), []);
                st = threshold min_n_samples ''Filter features based on min_n_samples'' (ge_test n_samples) st;
                st = threshold max_n_samples ''Filter features based on max_n_samples'' (le_test n_samples) st;
                st = threshold min_pct_samples ''Filter features based on min_pct_samples'' (ge_test pct_samples) st;
                st = threshold max_pct_samples ''Filter features based on max_pct_samples'' (le_test pct_samples) st;
                st = threshold min_n_counts ''Filter features based on min_n_counts'' (ge_test n_counts) st;
                st = threshold max_n_counts ''Filter features based on max_n_counts'' (le_test n_counts) st
            in (case subset_var ad (fst st) of
                  (ad, Some e) \<Rightarrow> (ad, snd st, Some e)
                | (ad, None) \<Rightarrow>
                    (ad, snd st @ [''After filtering out low-expressed features: '',
                       show_nat (shape0 ad) @ '' samples,  '' @ show_nat (shape1 ad) @ '' features''],
                     None)))))"

section \<open>The common shape of the filters\<close>

text \<open>
  The six filters are one computation up to the names of the two columns they read and
  the lines they print.  When no value is an \<open>np.matrix\<close>, which is so when \<open>adata.X\<close>
  is an \<open>ndarray\<close>, nothing is raised and every operand is a 1-D array of the length of
  the axis.  \<open>obs_column\<close> and \<open>var_column\<close> are the column idiom then, \<open>subset_mask\<close>
  is the mask that the six guarded statements build, in the source's order, and
  \<open>obs_filter\<close> and \<open>var_filter\<close> are the containers that the sample filters and the
  feature filters return.  The lemmas \<open>filter_samples_dense\<close> to
  \<open>filter_features_dense\<close> below show that each filter computes exactly this on an
  \<open>ndarray\<close>.
\<close>

definition obs_column :: "adata \<Rightarrow> string \<Rightarrow> column \<Rightarrow> column \<times> adata" where
  "obs_column ad key computed =
     (case obs ad key of
        Some c \<Rightarrow> (c, ad)
      | None \<Rightarrow> (computed, ad\<lparr>obs := (obs ad)(key \<mapsto> computed)\<rparr>))"

definition var_column :: "adata \<Rightarrow> string \<Rightarrow> column \<Rightarrow> column \<times> adata" where
  "var_column ad key computed =
     (case var ad key of
        Some c \<Rightarrow> (c, ad)
      | None \<Rightarrow> (computed, ad\<lparr>var := (var ad)(key \<mapsto> computed)\<rparr>))"

definition apply_threshold :: "real option \<Rightarrow> (real \<Rightarrow> bool list) \<Rightarrow> bool list \<Rightarrow> bool list" where
  "apply_threshold t test m = (case t of None \<Rightarrow> m | Some v \<Rightarrow> vand (test v) m)"

definition subset_mask ::
  "nat \<Rightarrow> column \<Rightarrow> column \<Rightarrow> column \<Rightarrow> real option \<Rightarrow> real option \<Rightarrow> real option \<Rightarrow>
   real option \<Rightarrow> real option \<Rightarrow> real option \<Rightarrow> bool list" where
  "subset_mask n cnt pc tot min_n max_n min_pct max_pct min_c max_c =
     apply_threshold max_c (le_mask tot)
       (apply_threshold min_c (ge_mask tot)
         (apply_threshold max_pct (le_mask pc)
           (apply_threshold min_pct (ge_mask pc)
             (apply_threshold max_n (le_mask cnt)
               (apply_threshold min_n (ge_mask cnt) (replicate n True))))))"

definition obs_filter ::
  "string \<Rightarrow> string \<Rightarrow> adata \<Rightarrow> real option \<Rightarrow> real option \<Rightarrow> real option \<Rightarrow>
   real option \<Rightarrow> real option \<Rightarrow> real option \<Rightarrow> real \<Rightarrow> adata" where
  "obs_filter nkey pkey ad min_n max_n min_pct max_pct min_c max_c expr_cutoff =
     (let (tot, ad) = obs_column ad ''n_counts'' (int_col (row_sums (X ad)));
          (cnt, ad) = obs_column ad nkey (count_col (row_counts expr_cutoff (X ad)));
          (pc, ad) = obs_column ad pkey (col_div cnt (shape1 ad))
      in if min_n = None \<and> min_pct = None \<and> min_c = None \<and>
            max_n = None \<and> max_pct = None \<and> max_c = None
         then ad
         else inplace_subset_obs ad
                (subset_mask (length (obs_names ad)) cnt pc tot
                   min_n max_n min_pct max_pct min_c max_c))"

definition var_filter ::
  "string \<Rightarrow> string \<Rightarrow> adata \<Rightarrow> real option \<Rightarrow> real option \<Rightarrow> real option \<Rightarrow>
   real option \<Rightarrow> real option \<Rightarrow> real option \<Rightarrow> real \<Rightarrow> adata" where
  "var_filter nkey pkey ad min_n max_n min_pct max_pct min_c max_c expr_cutoff =
     (let (tot, ad) = var_column ad ''n_counts'' (int_col (col_sums (shape1 ad) (X ad)));
          (cnt, ad) = var_column ad nkey (count_col (col_counts expr_cutoff (shape1 ad) (X ad)));
          (pc, ad) = var_column ad pkey (col_div cnt (shape0 ad))
      in if min_n = None \<and> min_pct = None \<and> min_c = None \<and>
            max_n = None \<and> max_pct = None \<and> max_c = None
         then ad
         else inplace_subset_var ad
                (subset_mask (length (var_names ad)) cnt pc tot
                   min_n max_n min_pct max_pct min_c max_c))"

text \<open>A value, and a subset under construction, that is 1-D with the given entries.\<close>

definition flat_value :: "'a arr \<Rightarrow> 'a \<Rightarrow> bool" where
  "flat_value v c = (v = Ndarray c \<or> v = Series c)"

definition flat_subset :: "error + subset \<Rightarrow> bool list \<Rightarrow> bool" where
  "flat_subset r bs = (r = Inr (Array1 bs) \<or> r = Inr (Series1 bs))"

text \<open>Two containers hold the same data matrix with the same axes.\<close>

definition same_matrix :: "adata \<Rightarrow> adata \<Rightarrow> bool" where
  "same_matrix a b = (X a = X b \<and> obs_names a = obs_names b \<and> var_names a = var_names b)"

section \<open>Selecting components and features\<close>

text \<open>
  \<open>select_pcs\<close> and \<open>select_pcs_features\<close> call \<open>locate_elbow\<close>, which the module imports
  from \<open>._utils\<close> and does not define.  It is a parameter of the model.  A call is the
  record of what the call site passes: the two positional arguments \<open>x\<close> (a \<open>range\<close>) and
  \<open>y\<close>, the keywords \<open>S\<close> and \<open>min_elbow\<close>, the keywords \<open>curve\<close>, \<open>direction\<close> and
  \<open>online\<close> where the call site passes them (\<open>None\<close> where it does not, so that the
  locator's own default applies), and the remaining \<open>**kwargs\<close>.  The locator either
  raises or returns an index or Python's \<open>None\<close>.
\<close>

record 'k elbow_call =
  ec_x :: "nat list"
  ec_y :: "real list"
  ec_S :: real
  ec_min_elbow :: real
  ec_curve :: "string option"
  ec_direction :: "string option"
  ec_online :: "bool option"
  ec_kwargs :: 'k

type_synonym 'k locator = "'k elbow_call \<Rightarrow> error + int option"

text \<open>The call of \<open>select_pcs\<close>: \<open>curve\<close> is not among the keywords.\<close>

definition variance_call ::
  "nat \<Rightarrow> real list \<Rightarrow> real \<Rightarrow> real \<Rightarrow> string \<Rightarrow> bool \<Rightarrow> 'k \<Rightarrow> 'k elbow_call" where
  "variance_call n_components ratio S min_elbow direction online kwargs =
     \<lparr>ec_x = [0..<n_components], ec_y = ratio, ec_S = S, ec_min_elbow = min_elbow,
      ec_curve = None, ec_direction = Some direction, ec_online = Some online,
      ec_kwargs = kwargs\<rparr>"

text \<open>
  \<open>select_pcs\<close> returns the container, the calls made to the locator, and the exception
  raised, if any.  A missing dictionary key is a \<open>KeyError\<close>; an exception of the locator
  propagates before anything is stored.  \<open>n_components/10\<close> is Python's true division.
\<close>

definition select_pcs ::
  "'k locator \<Rightarrow> adata \<Rightarrow> int option \<Rightarrow> real \<Rightarrow> string \<Rightarrow> string \<Rightarrow> bool \<Rightarrow> real option \<Rightarrow> 'k \<Rightarrow>
   adata \<times> 'k elbow_call list \<times> error option" where
  "select_pcs locate_elbow ad n_pcs_arg S curve direction online min_elbow kwargs =
     (case n_pcs_arg of
        None \<Rightarrow>
          (case obsm ad ''X_pca'' of
             None \<Rightarrow> (ad, [], Some KeyError)
           | Some x_pca \<Rightarrow>
               let n_components = ncols x_pca;
                   min_elbow = (case min_elbow of
                                  None \<Rightarrow> real n_components / 10
                                | Some m \<Rightarrow> m)
               in (case uns_pca ad of
                     None \<Rightarrow> (ad, [], Some KeyError)
                   | Some pca \<Rightarrow>
                       (case variance_ratio pca of
                          None \<Rightarrow> (ad, [], Some KeyError)
                        | Some ratio \<Rightarrow>
                            let call = variance_call n_components ratio S min_elbow
                                         direction online kwargs
                            in (case locate_elbow call of
                                  Inl e \<Rightarrow> (ad, [call], Some e)
                                | Inr n \<Rightarrow>
                                    (ad\<lparr>uns_pca := Some (pca\<lparr>n_pcs := Some n\<rparr>)\<rparr>,
                                     [call], None)))))
      | Some n \<Rightarrow>
          (case uns_pca ad of
             None \<Rightarrow> (ad, [], Some KeyError)
           | Some pca \<Rightarrow> (ad\<lparr>uns_pca := Some (pca\<lparr>n_pcs := Some (Some n)\<rparr>)\<rparr>, [], None)))"

text \<open>
  The slice \<open>xs[:stop]\<close>: \<open>None\<close> keeps the whole list, a negative stop counts from the
  end.
\<close>

definition py_slice_to :: "int option \<Rightarrow> 'a list \<Rightarrow> 'a list" where
  "py_slice_to stop xs =
     (case stop of
        None \<Rightarrow> xs
      | Some k \<Rightarrow> if 0 \<le> k then take (nat k) xs else take (length xs - nat (- k)) xs)"

text \<open>
  \<open>np.argsort\<close>, \<open>np.unique\<close>, the column \<open>PCs[:, i]\<close>, and the two expressions of the
  loop body: \<open>np.sort(np.abs(col))[::-1]\<close> and \<open>np.argsort(np.abs(col))[::-1]\<close>.  Equal
  magnitudes are ordered here as a stable sort orders them; numpy leaves their order
  open.
\<close>

definition argsort :: "real list \<Rightarrow> nat list" where
  "argsort xs = map snd (sort_key fst (zip xs [0..<length xs]))"

definition np_unique :: "nat list \<Rightarrow> nat list" where
  "np_unique ids = sort (remdups ids)"

definition loading_column :: "matrix \<Rightarrow> nat \<Rightarrow> real list" where
  "loading_column pcs i = map (\<lambda>r. r ! i) (mrows pcs)"

definition sorted_magnitudes :: "real list \<Rightarrow> real list" where
  "sorted_magnitudes col = rev (sort (map abs col))"

definition ranking :: "real list \<Rightarrow> nat list" where
  "ranking col = rev (argsort (map abs col))"

text \<open>
  The call of \<open>select_pcs_features\<close>: neither \<open>curve\<close> nor \<open>direction\<close> nor \<open>online\<close> is
  among the keywords.
\<close>

definition feature_call :: "matrix \<Rightarrow> nat \<Rightarrow> real \<Rightarrow> real \<Rightarrow> 'k \<Rightarrow> nat \<Rightarrow> 'k elbow_call" where
  "feature_call pcs n_features S min_elbow kwargs i =
     \<lparr>ec_x = [0..<n_features], ec_y = sorted_magnitudes (loading_column pcs i), ec_S = S,
      ec_min_elbow = min_elbow, ec_curve = None, ec_direction = None, ec_online = None,
      ec_kwargs = kwargs\<rparr>"

text \<open>\<open>adata.uns['pca']['features'][key] = ids\<close>.\<close>

definition record_features :: "adata \<Rightarrow> string \<Rightarrow> nat list \<Rightarrow> adata" where
  "record_features ad key ids =
     ad\<lparr>uns_pca :=
          map_option (\<lambda>p. p\<lparr>features := map_option (\<lambda>d. d(key \<mapsto> ids)) (features p)\<rparr>)
            (uns_pca ad)\<rparr>"

text \<open>
  The loop \<open>for i in range(n_pcs)\<close> over the state (container, calls made so far,
  \<open>ids_features\<close>).  A column index past the width of \<open>PCs\<close> is an \<open>IndexError\<close>, raised
  while the argument of the locator is evaluated.
\<close>

fun features_loop ::
  "'k locator \<Rightarrow> matrix \<Rightarrow> nat \<Rightarrow> real \<Rightarrow> real \<Rightarrow> 'k \<Rightarrow> nat list \<Rightarrow>
   adata \<times> 'k elbow_call list \<times> nat list \<Rightarrow>
   (adata \<times> 'k elbow_call list \<times> nat list) \<times> error option" where
  "features_loop locate_elbow pcs n_features S min_elbow kwargs [] st = (st, None)"
| "features_loop locate_elbow pcs n_features S min_elbow kwargs (i # rest)
     (ad, calls, ids_features) =
     (if ncols pcs \<le> i then ((ad, calls, ids_features), Some IndexError)
      else
        let call = feature_call pcs n_features S min_elbow kwargs i
        in case locate_elbow call of
             Inl e \<Rightarrow> ((ad, calls @ [call], ids_features), Some e)
           | Inr elbow \<Rightarrow>
               let ids_features_i = py_slice_to elbow (ranking (loading_column pcs i));
                   ad = record_features ad (''pc_'' @ show_nat i) ids_features_i
               in features_loop locate_elbow pcs n_features S min_elbow kwargs rest
                    (ad, calls @ [call], ids_features @ ids_features_i))"

text \<open>The list that component \<open>i\<close> contributes, and the list stored under a key.\<close>

definition component_ids ::
  "'k locator \<Rightarrow> matrix \<Rightarrow> nat \<Rightarrow> real \<Rightarrow> real \<Rightarrow> 'k \<Rightarrow> nat \<Rightarrow> nat list" where
  "component_ids locate_elbow pcs n_features S min_elbow kwargs i =
     (case locate_elbow (feature_call pcs n_features S min_elbow kwargs i) of
        Inl e \<Rightarrow> []
      | Inr elbow \<Rightarrow> py_slice_to elbow (ranking (loading_column pcs i)))"

definition recorded_features :: "adata \<Rightarrow> string \<Rightarrow> nat list option" where
  "recorded_features ad key =
     (case uns_pca ad of
        None \<Rightarrow> None
      | Some p \<Rightarrow> (case features p of None \<Rightarrow> None | Some d \<Rightarrow> d key))"

text \<open>
  The last two statements.  The column is first set to \<open>False\<close> throughout.  Then the
  positions \<open>np.unique(ids_features)\<close> are turned into feature names, and
  \<open>adata.var.loc[names, 'top_pcs'] = True\<close> sets every row that carries one of these
  names.  \<open>np.unique\<close> of the empty list is an empty array of floats, which cannot index
  \<open>var_names\<close>; a position past the end cannot either.
\<close>

definition mark_top_pcs :: "adata \<Rightarrow> nat list \<Rightarrow> adata \<times> error option" where
  "mark_top_pcs ad ids_features =
     (let ad = ad\<lparr>var := (var ad)(''top_pcs'' \<mapsto> BoolCol (replicate (shape1 ad) False))\<rparr>;
          idx = np_unique ids_features
      in if ids_features = [] then (ad, Some IndexError)
         else if \<exists>i \<in> set idx. length (var_names ad) \<le> i then (ad, Some IndexError)
         else
           let names = map (\<lambda>i. var_names ad ! i) idx
           in (ad\<lparr>var := (var ad)(''top_pcs'' \<mapsto>
                      BoolCol (map (\<lambda>name. name \<in> set names) (var_names ad)))\<rparr>,
               None))"

text \<open>
  \<open>select_pcs_features\<close>.  \<open>range(n_pcs)\<close> raises \<open>TypeError\<close> when the stored count is
  \<open>None\<close>, after the dictionary of features has been reset, and is empty for a count
  below one.
\<close>

definition select_pcs_features ::
  "'k locator \<Rightarrow> adata \<Rightarrow> real \<Rightarrow> string \<Rightarrow> string \<Rightarrow> bool \<Rightarrow> real option \<Rightarrow> 'k \<Rightarrow>
   adata \<times> 'k elbow_call list \<times> error option" where
  "select_pcs_features locate_elbow ad S curve direction online min_elbow kwargs =
     (case uns_pca ad of
        None \<Rightarrow> (ad, [], Some KeyError)
      | Some pca \<Rightarrow>
          (case n_pcs pca of
             None \<Rightarrow> (ad, [], Some KeyError)
           | Some n_pcs_value \<Rightarrow>
               (case varm ad ''PCs'' of
                  None \<Rightarrow> (ad, [], Some KeyError)
                | Some pcs \<Rightarrow>
                    let n_features = length (mrows pcs);
                        min_elbow = (case min_elbow of
                                       None \<Rightarrow> real n_features / 10
                                     | Some m \<Rightarrow> m);
                        ad = ad\<lparr>uns_pca := Some (pca\<lparr>features := Some Map.empty\<rparr>)\<rparr>
                    in (case n_pcs_value of
                          None \<Rightarrow> (ad, [], Some TypeError)
                        | Some n \<Rightarrow>
                            (case features_loop locate_elbow pcs n_features S min_elbow kwargs
                                    [0..<nat n] (ad, [], []) of
                               ((ad, calls, ids_features), Some e) \<Rightarrow> (ad, calls, Some e)
                             | ((ad, calls, ids_features), None) \<Rightarrow>
                                 (case mark_top_pcs ad ids_features of
                                    (ad, err) \<Rightarrow> (ad, calls, err)))))))"

text \<open>The literal 3 x 3 count matrix of the specification's property P9.\<close>

definition qc_example :: adata where
  "qc_example =
     \<lparr>X = [[0, 2, 0], [1, 0, 3], [4, 0, 0]],
      obs_names = [''s0'', ''s1'', ''s2''],
      var_names = [''f0'', ''f1'', ''f2''],
      obs = Map.empty, var = Map.empty, layers = Map.empty,
      obsm = Map.empty, varm = Map.empty, uns_pca = None, issparse = False\<rparr>"

text \<open>The same matrix stored as a \<open>csr_matrix\<close>.\<close>

definition sparse_example :: adata where
  "sparse_example = qc_example\<lparr>issparse := True\<rparr>"

text \<open>
  A 10 x 5 count matrix on which \<open>min_n_counts = 5\<close> removes exactly the three samples
  \<open>s0\<close>, \<open>s2\<close> and \<open>s5\<close> (the example of the specification's property P8).
\<close>

definition filter_example :: adata where
  "filter_example =
     \<lparr>X = [[1, 0, 0, 0, 0], [5, 1, 0, 2, 0], [0, 2, 0, 0, 0], [3, 3, 1, 0, 0],
            [0, 0, 4, 4, 1], [1, 1, 1, 0, 0], [2, 2, 2, 2, 2], [0, 6, 0, 0, 0],
            [1, 1, 1, 1, 1], [9, 0, 0, 0, 1]],
      obs_names = [''s0'', ''s1'', ''s2'', ''s3'', ''s4'', ''s5'', ''s6'', ''s7'', ''s8'', ''s9''],
      var_names = [''f0'', ''f1'', ''f2'', ''f3'', ''f4''],
      obs = Map.empty, var = Map.empty, layers = Map.empty,
      obsm = Map.empty, varm = Map.empty, uns_pca = None, issparse = False\<rparr>"

text \<open>
  One sample, seven features and two components.  By magnitude, component 0 ranks the
  features 0, 1, 2 first and component 1 the features 2, 3, 4 (the example of the
  specification's property P7: two lists of three with one feature in common).
\<close>

definition example_pca :: pca_dict where
  "example_pca =
     \<lparr>variance = Some [5, 1], variance_ratio = Some [5 / 6, 1 / 6],
      n_pcs = Some (Some 2), features = None\<rparr>"

definition pcs_example :: adata where
  "pcs_example =
     \<lparr>X = [[1, 0, 0, 0, 0, 0, 0]],
      obs_names = [''s0''],
      var_names = [''g0'', ''g1'', ''g2'', ''g3'', ''g4'', ''g5'', ''g6''],
      obs = Map.empty, var = Map.empty, layers = Map.empty,
      obsm = [''X_pca'' \<mapsto> \<lparr>ncols = 2, mrows = [[1, 2]]\<rparr>],
      varm = [''PCs'' \<mapsto>
                \<lparr>ncols = 2,
                 mrows = [[9, 1 / 10], [- 8, 2 / 10], [7, - 9], [1 / 10, 8], [2 / 10, - 7],
                          [3 / 10, 3 / 10], [4 / 10, 4 / 10]]\<rparr>],
      uns_pca = Some example_pca, issparse = False\<rparr>"

text \<open>The same container with the name \<open>g0\<close> carried by the features 0 and 6.\<close>

definition dup_example :: adata where
  "dup_example =
     pcs_example\<lparr>var_names := [''g0'', ''g1'', ''g2'', ''g3'', ''g4'', ''g5'', ''g0'']\<rparr>"

text \<open>Two locators: one that never finds an elbow, one that always answers 3.\<close>

definition no_elbow :: "unit locator" where
  "no_elbow call = Inr None"

definition top3 :: "unit locator" where
  "top3 call = Inr (Some 3)"

section \<open>Theorems\<close>

lemma as_csr_fields [simp]:
  "X (as_csr ad) = X ad" "obs_names (as_csr ad) = obs_names ad"
  "var_names (as_csr ad) = var_names ad" "obs (as_csr ad) = obs ad" "var (as_csr ad) = var ad"
  "layers (as_csr ad) = layers ad" "obsm (as_csr ad) = obsm ad" "varm (as_csr ad) = varm ad"
  "uns_pca (as_csr ad) = uns_pca ad" "issparse (as_csr ad)"
  by (simp_all add: as_csr_def)

lemma as_csr_shape [simp]: "shape0 (as_csr ad) = shape0 ad" "shape1 (as_csr ad) = shape1 ad"
  by (simp_all add: shape0_def shape1_def)

text \<open>
  Claim C6.  On the literal matrix \<open>[[0,2,0],[1,0,3],[4,0,0]]\<close> with
  \<open>expr_cutoff = 1\<close>, \<open>cal_qc\<close> records the per-feature expressed-sample counts
  \<open>[2,1,1]\<close> (column \<open>n_samples\<close> of \<open>var\<close>) and the per-sample expressed-feature
  counts \<open>[1,2,1]\<close> (column \<open>n_features\<close> of \<open>obs\<close>).
\<close>

theorem cal_qc_example_counts:
  "var (cal_qc qc_example 1) ''n_samples'' = Some (NumCol [Fin 2, Fin 1, Fin 1]) \<and>
   obs (cal_qc qc_example 1) ''n_features'' = Some (NumCol [Fin 1, Fin 2, Fin 1])"
  by (simp add: cal_qc_def qc_example_def shape0_def shape1_def count_col_def Let_def
      col_counts_def row_counts_def upt_conv_Cons nth_Cons')

subsection \<open>Quality control and normalization\<close>





text \<open>
  Claim C7.  For every container and every method name other than \<open>lib_size\<close> and
  \<open>tf_idf\<close>, \<open>normalize\<close> raises \<open>ValueError\<close> and returns the container exactly as
  it received it: the matrix, the layers (the \<open>raw\<close> layer included) and all metadata.
\<close>

theorem normalize_rejects_unknown_method:
  "m \<notin> {''lib_size'', ''tf_idf''} \<Longrightarrow>
   normalize cal_tf_idf ad m scale_factor save_raw = (ad, Some ValueError)"
  by (simp add: normalize_def)

theorem normalize_rejects_unknown_method_witness:
  "''scran'' \<notin> {''lib_size'', ''tf_idf''} \<and>
   normalize Inr qc_example ''scran'' 10000 True = (qc_example, Some ValueError)"
  using normalize_rejects_unknown_method [of "''scran''" Inr qc_example 10000 True]
  by simp



subsection \<open>Masks\<close>

lemma bool_index_Nil [simp]: "bool_index m [] = []" "bool_index [] xs = []"
  by (simp_all add: bool_index_def)

lemma bool_index_Cons [simp]:
  "bool_index (b # m) (x # xs) = (if b then x # bool_index m xs else bool_index m xs)"
  by (simp add: bool_index_def)

lemma bool_index_map: "bool_index m (map f xs) = map f (bool_index m xs)"
proof (induction xs arbitrary: m)
  case Nil
  then show ?case by simp
next
  case (Cons x xs)
  then show ?case by (cases m) simp_all
qed

lemma length_bool_index:
  "length xs = length m \<Longrightarrow> length (bool_index m xs) = length (filter id m)"
proof (induction xs arbitrary: m)
  case Nil
  then show ?case by simp
next
  case (Cons x xs)
  then show ?case by (cases m) simp_all
qed

lemma bool_index_all_True: "length xs \<le> n \<Longrightarrow> bool_index (replicate n True) xs = xs"
proof (induction xs arbitrary: n)
  case Nil
  then show ?case by simp
next
  case (Cons x xs)
  then show ?case by (cases n) simp_all
qed

lemma bool_index_implied:
  "list_all2 (\<longrightarrow>) m c \<Longrightarrow> bool_index m c = replicate (length (filter id m)) True"
  by (induction m c rule: list_all2_induct) simp_all

lemma vand_refines:
  "length c = length m \<Longrightarrow> list_all2 (\<longrightarrow>) (vand c m) c \<and> list_all2 (\<longrightarrow>) (vand c m) m"
  by (induction c m rule: list_induct2) (simp_all add: vand_def)

lemma vand_True [simp]: "vand (replicate k True) (replicate k True) = replicate k True"
  by (induction k) (simp_all add: vand_def)

lemma length_vand [simp]: "length (vand a b) = min (length a) (length b)"
  by (simp add: vand_def)

lemma as_num_index_column: "as_num (index_column m c) = bool_index m (as_num c)"
  by (cases c) (simp_all add: as_num_def index_column_def bool_index_map)

lemma length_as_num [simp]: "length (as_num c) = col_len c"
  by (cases c) (simp_all add: as_num_def col_len_def)

lemma ge_mask_index_column: "ge_mask (index_column m c) t = bool_index m (ge_mask c t)"
  by (simp add: ge_mask_def as_num_index_column bool_index_map)

lemma le_mask_index_column: "le_mask (index_column m c) t = bool_index m (le_mask c t)"
  by (simp add: le_mask_def as_num_index_column bool_index_map)

lemma length_ge_mask [simp]: "length (ge_mask c t) = col_len c"
  by (simp add: ge_mask_def)

lemma length_le_mask [simp]: "length (le_mask c t) = col_len c"
  by (simp add: le_mask_def)

lemma length_apply_threshold:
  "(\<And>v. length (test v) = length m) \<Longrightarrow> length (apply_threshold t test m) = length m"
  by (simp add: apply_threshold_def split: option.splits)

lemma apply_threshold_refines:
  "(\<And>v. length (test v) = length m) \<Longrightarrow> list_all2 (\<longrightarrow>) (apply_threshold t test m) m"
  by (cases t) (simp_all add: apply_threshold_def vand_refines list_all2_refl)

lemma apply_threshold_test:
  "(\<And>v. length (test v) = length m) \<Longrightarrow> t = Some v \<Longrightarrow>
   list_all2 (\<longrightarrow>) (apply_threshold t test m) (test v)"
  by (simp add: apply_threshold_def vand_refines)

lemma refines_trans:
  "list_all2 (\<longrightarrow>) a b \<Longrightarrow> list_all2 (\<longrightarrow>) b c \<Longrightarrow> list_all2 (\<longrightarrow>) a c"
  by (auto simp: list_all2_conv_all_nth)

text \<open>Once a mask refines every test that is set, the tests cut to the mask all pass.\<close>

lemma apply_threshold_second:
  assumes "\<And>v. t = Some v \<Longrightarrow> list_all2 (\<longrightarrow>) m (test v)"
    and "\<And>v. test' v = bool_index m (test v)"
  shows "apply_threshold t test' (replicate (length (filter id m)) True) =
         replicate (length (filter id m)) True"
  using assms by (cases t) (simp_all add: apply_threshold_def bool_index_implied)

lemma subset_mask_idem:
  assumes n: "col_len cnt = n" "col_len pc = n" "col_len tot = n"
    and m: "m = subset_mask n cnt pc tot t1 t2 t3 t4 t5 t6"
    and k: "k = length (filter id m)"
  shows "subset_mask k (index_column m cnt) (index_column m pc) (index_column m tot)
           t1 t2 t3 t4 t5 t6 = replicate k True"
proof -
  define m0 where "m0 = replicate n True"
  define m1 where "m1 = apply_threshold t1 (ge_mask cnt) m0"
  define m2 where "m2 = apply_threshold t2 (le_mask cnt) m1"
  define m3 where "m3 = apply_threshold t3 (ge_mask pc) m2"
  define m4 where "m4 = apply_threshold t4 (le_mask pc) m3"
  define m5 where "m5 = apply_threshold t5 (ge_mask tot) m4"
  have m6: "m = apply_threshold t6 (le_mask tot) m5"
    by (simp add: m subset_mask_def m0_def m1_def m2_def m3_def m4_def m5_def)
  have l0: "length m0 = n" by (simp add: m0_def)
  have l1: "length m1 = n" unfolding m1_def using l0 n by (simp add: length_apply_threshold)
  have l2: "length m2 = n" unfolding m2_def using l1 n by (simp add: length_apply_threshold)
  have l3: "length m3 = n" unfolding m3_def using l2 n by (simp add: length_apply_threshold)
  have l4: "length m4 = n" unfolding m4_def using l3 n by (simp add: length_apply_threshold)
  have l5: "length m5 = n" unfolding m5_def using l4 n by (simp add: length_apply_threshold)
  have r65: "list_all2 (\<longrightarrow>) m m5"
    unfolding m6 using l5 n by (intro apply_threshold_refines) simp
  have r54: "list_all2 (\<longrightarrow>) m5 m4"
    unfolding m5_def using l4 n by (intro apply_threshold_refines) simp
  have r43: "list_all2 (\<longrightarrow>) m4 m3"
    unfolding m4_def using l3 n by (intro apply_threshold_refines) simp
  have r32: "list_all2 (\<longrightarrow>) m3 m2"
    unfolding m3_def using l2 n by (intro apply_threshold_refines) simp
  have r21: "list_all2 (\<longrightarrow>) m2 m1"
    unfolding m2_def using l1 n by (intro apply_threshold_refines) simp
  have r64: "list_all2 (\<longrightarrow>) m m4" using r65 r54 by (rule refines_trans)
  have r63: "list_all2 (\<longrightarrow>) m m3" using r64 r43 by (rule refines_trans)
  have r62: "list_all2 (\<longrightarrow>) m m2" using r63 r32 by (rule refines_trans)
  have r61: "list_all2 (\<longrightarrow>) m m1" using r62 r21 by (rule refines_trans)
  have t6: "\<And>v. t6 = Some v \<Longrightarrow> list_all2 (\<longrightarrow>) m (le_mask tot v)"
    unfolding m6 using l5 n by (intro apply_threshold_test) simp_all
  have t5: "\<And>v. t5 = Some v \<Longrightarrow> list_all2 (\<longrightarrow>) m (ge_mask tot v)"
    using l4 n apply_threshold_test [of "ge_mask tot" m4 t5] r65
    by (auto simp: m5_def intro: refines_trans)
  have t4: "\<And>v. t4 = Some v \<Longrightarrow> list_all2 (\<longrightarrow>) m (le_mask pc v)"
    using l3 n apply_threshold_test [of "le_mask pc" m3 t4] r64
    by (auto simp: m4_def intro: refines_trans)
  have t3: "\<And>v. t3 = Some v \<Longrightarrow> list_all2 (\<longrightarrow>) m (ge_mask pc v)"
    using l2 n apply_threshold_test [of "ge_mask pc" m2 t3] r63
    by (auto simp: m3_def intro: refines_trans)
  have t2: "\<And>v. t2 = Some v \<Longrightarrow> list_all2 (\<longrightarrow>) m (le_mask cnt v)"
    using l1 n apply_threshold_test [of "le_mask cnt" m1 t2] r62
    by (auto simp: m2_def intro: refines_trans)
  have t1: "\<And>v. t1 = Some v \<Longrightarrow> list_all2 (\<longrightarrow>) m (ge_mask cnt v)"
    using l0 n apply_threshold_test [of "ge_mask cnt" m0 t1] r61
    by (auto simp: m1_def intro: refines_trans)
  show ?thesis
    unfolding subset_mask_def k
    by (simp add: apply_threshold_second [OF t1 ge_mask_index_column]
        apply_threshold_second [OF t2 le_mask_index_column]
        apply_threshold_second [OF t3 ge_mask_index_column]
        apply_threshold_second [OF t4 le_mask_index_column]
        apply_threshold_second [OF t5 ge_mask_index_column]
        apply_threshold_second [OF t6 le_mask_index_column])
qed

lemma length_subset_mask:
  "col_len cnt = n \<Longrightarrow> col_len pc = n \<Longrightarrow> col_len tot = n \<Longrightarrow>
   length (subset_mask n cnt pc tot t1 t2 t3 t4 t5 t6) = n"
  by (simp add: subset_mask_def length_apply_threshold)

lemma six_None:
  "(length (filter (\<lambda>x. x = None) [a, b, c, d, e, f :: real option]) = 6) =
   (a = None \<and> b = None \<and> c = None \<and> d = None \<and> e = None \<and> f = None)"
  by (cases a; cases b; cases c; cases d; cases e; cases f; simp)

lemma obs_column_present: "obs ad k = Some c \<Longrightarrow> obs_column ad k d = (c, ad)"
  by (simp add: obs_column_def)

lemma var_column_present: "var ad k = Some c \<Longrightarrow> var_column ad k d = (c, ad)"
  by (simp add: var_column_def)

lemma obs_column_result:
  assumes "obs_column ad k d = (c, ad')"
  shows "obs ad' k = Some c" "X ad' = X ad" "obs_names ad' = obs_names ad"
    "var_names ad' = var_names ad" "shape1 ad' = shape1 ad"
    "\<And>k' v. obs ad k' = Some v \<Longrightarrow> obs ad' k' = Some v"
    "c = d \<or> obs ad k = Some c"
    "\<And>k' v. obs ad' k' = Some v \<Longrightarrow> obs ad k' = Some v \<or> v = d"
  using assms by (auto simp: obs_column_def shape1_def split: option.splits if_splits)

lemma var_column_result:
  assumes "var_column ad k d = (c, ad')"
  shows "var ad' k = Some c" "X ad' = X ad" "obs_names ad' = obs_names ad"
    "var_names ad' = var_names ad" "shape1 ad' = shape1 ad" "shape0 ad' = shape0 ad"
    "\<And>k' v. var ad k' = Some v \<Longrightarrow> var ad' k' = Some v"
    "c = d \<or> var ad k = Some c"
    "\<And>k' v. var ad' k' = Some v \<Longrightarrow> var ad k' = Some v \<or> v = d"
  using assms by (auto simp: var_column_def shape1_def shape0_def split: option.splits if_splits)

lemma col_len_simps [simp]:
  "col_len (int_col xs) = length xs" "col_len (count_col cs) = length cs"
  "col_len (col_div c d) = col_len c" "col_len (num_col xs) = length xs"
  by (simp_all add: int_col_def count_col_def col_div_def num_col_def col_len_def)

lemma col_len_index_column:
  "col_len c = length m \<Longrightarrow> col_len (index_column m c) = length (filter id m)"
  by (cases c) (simp_all add: index_column_def col_len_def length_bool_index)

lemma length_row_sums [simp]: "length (row_sums rows) = length rows"
  by (simp add: row_sums_def)

lemma length_row_counts [simp]: "length (row_counts c rows) = length rows"
  by (simp add: row_counts_def)

lemma length_col_sums [simp]: "length (col_sums m rows) = m"
  by (simp add: col_sums_def)

lemma length_col_counts [simp]: "length (col_counts c m rows) = m"
  by (simp add: col_counts_def)

subsection \<open>Filtering twice\<close>

lemma obs_filter_present:
  assumes "obs ad ''n_counts'' = Some tot" "obs ad nk = Some cnt" "obs ad pk = Some pc"
  shows "obs_filter nk pk ad t1 t2 t3 t4 t5 t6 co =
    (if t1 = None \<and> t3 = None \<and> t5 = None \<and> t2 = None \<and> t4 = None \<and> t6 = None then ad
     else inplace_subset_obs ad
            (subset_mask (length (obs_names ad)) cnt pc tot t1 t2 t3 t4 t5 t6))"
  unfolding obs_filter_def obs_column_present [OF assms(1)] prod.case Let_def
    obs_column_present [OF assms(2)] obs_column_present [OF assms(3)]
  by (rule refl)

lemma var_filter_present:
  assumes "var ad ''n_counts'' = Some tot" "var ad nk = Some cnt" "var ad pk = Some pc"
  shows "var_filter nk pk ad t1 t2 t3 t4 t5 t6 co =
    (if t1 = None \<and> t3 = None \<and> t5 = None \<and> t2 = None \<and> t4 = None \<and> t6 = None then ad
     else inplace_subset_var ad
            (subset_mask (length (var_names ad)) cnt pc tot t1 t2 t3 t4 t5 t6))"
  unfolding var_filter_def var_column_present [OF assms(1)] prod.case Let_def
    var_column_present [OF assms(2)] var_column_present [OF assms(3)]
  by (rule refl)

text \<open>What a sample filter does, in terms of the three columns it ends up reading.\<close>

lemma obs_filter_shape:
  assumes wf: "wf_adata ad"
  obtains a3 tot cnt pc where
    "obs_filter nk pk ad t1 t2 t3 t4 t5 t6 co =
      (if t1 = None \<and> t3 = None \<and> t5 = None \<and> t2 = None \<and> t4 = None \<and> t6 = None then a3
       else inplace_subset_obs a3
              (subset_mask (length (obs_names a3)) cnt pc tot t1 t2 t3 t4 t5 t6))"
    "X a3 = X ad" "obs_names a3 = obs_names ad" "var_names a3 = var_names ad"
    "obs a3 ''n_counts'' = Some tot" "obs a3 nk = Some cnt" "obs a3 pk = Some pc"
    "col_len tot = length (obs_names ad)" "col_len cnt = length (obs_names ad)"
    "col_len pc = length (obs_names ad)"
proof -
  have lx: "length (X ad) = length (obs_names ad)"
    using wf by (simp add: wf_adata_def aligned_def shape0_def)
  have lc: "\<And>k c. obs ad k = Some c \<Longrightarrow> col_len c = length (obs_names ad)"
    using wf by (simp add: wf_adata_def shape0_def)
  obtain tot a1 where 1: "obs_column ad ''n_counts'' (int_col (row_sums (X ad))) = (tot, a1)"
    by (cases "obs_column ad ''n_counts'' (int_col (row_sums (X ad)))")
  obtain cnt a2 where 2: "obs_column a1 nk (count_col (row_counts co (X a1))) = (cnt, a2)"
    by (cases "obs_column a1 nk (count_col (row_counts co (X a1)))")
  obtain pc a3 where 3: "obs_column a2 pk (col_div cnt (shape1 a2)) = (pc, a3)"
    by (cases "obs_column a2 pk (col_div cnt (shape1 a2))")
  note r1 = obs_column_result [OF 1]
  note r2 = obs_column_result [OF 2]
  note r3 = obs_column_result [OF 3]
  have ltot: "col_len tot = length (obs_names ad)"
    using r1(7) lc lx by auto
  have lc1: "\<And>k c. obs a1 k = Some c \<Longrightarrow> col_len c = length (obs_names ad)"
    using r1(8) lc lx by fastforce
  have lcnt: "col_len cnt = length (obs_names ad)"
    using r2(7) lc1 lx r1(2) by auto
  have lc2: "\<And>k c. obs a2 k = Some c \<Longrightarrow> col_len c = length (obs_names ad)"
    using r2(8) lc1 lx r1(2) by fastforce
  have lpc: "col_len pc = length (obs_names ad)"
    using r3(7) lc2 lcnt by auto
  have e: "obs_filter nk pk ad t1 t2 t3 t4 t5 t6 co =
      (if t1 = None \<and> t3 = None \<and> t5 = None \<and> t2 = None \<and> t4 = None \<and> t6 = None then a3
       else inplace_subset_obs a3
              (subset_mask (length (obs_names a3)) cnt pc tot t1 t2 t3 t4 t5 t6))"
    unfolding obs_filter_def 1 prod.case Let_def 2 3 by (rule refl)
  show ?thesis
  proof (rule that [OF e])
    show "X a3 = X ad" by (simp add: r1 r2 r3)
    show "obs_names a3 = obs_names ad" by (simp add: r1 r2 r3)
    show "var_names a3 = var_names ad" by (simp add: r1 r2 r3)
    show "obs a3 ''n_counts'' = Some tot" by (intro r3(6) r2(6) r1(1))
    show "obs a3 nk = Some cnt" by (intro r3(6) r2(1))
    show "obs a3 pk = Some pc" by (rule r3(1))
  qed (rule ltot lcnt lpc)+
qed

lemma obs_index_column:
  "obs ad k = Some c \<Longrightarrow> obs (inplace_subset_obs ad m) k = Some (index_column m c)"
  by (simp add: inplace_subset_obs_def)

lemma var_index_column:
  "var ad k = Some c \<Longrightarrow> var (inplace_subset_var ad m) k = Some (index_column m c)"
  by (simp add: inplace_subset_var_def)

lemma obs_filter_idem:
  assumes wf: "wf_adata ad"
    and r_def: "r = obs_filter nk pk ad t1 t2 t3 t4 t5 t6 co"
  shows "X (obs_filter nk pk r t1 t2 t3 t4 t5 t6 co) = X r \<and>
         obs_names (obs_filter nk pk r t1 t2 t3 t4 t5 t6 co) = obs_names r \<and>
         var_names (obs_filter nk pk r t1 t2 t3 t4 t5 t6 co) = var_names r"
proof -
  have lx: "length (X ad) = length (obs_names ad)"
    using wf by (simp add: wf_adata_def aligned_def shape0_def)
  obtain a3 tot cnt pc where
    e: "r = (if t1 = None \<and> t3 = None \<and> t5 = None \<and> t2 = None \<and> t4 = None \<and> t6 = None then a3
       else inplace_subset_obs a3
              (subset_mask (length (obs_names a3)) cnt pc tot t1 t2 t3 t4 t5 t6))"
    and x: "X a3 = X ad" and n: "obs_names a3 = obs_names ad"
    and o: "obs a3 ''n_counts'' = Some tot" "obs a3 nk = Some cnt" "obs a3 pk = Some pc"
    and l: "col_len tot = length (obs_names ad)" "col_len cnt = length (obs_names ad)"
      "col_len pc = length (obs_names ad)"
    unfolding r_def by (rule obs_filter_shape [OF wf, of nk pk t1 t2 t3 t4 t5 t6 co]) blast
  show ?thesis
  proof (cases "t1 = None \<and> t3 = None \<and> t5 = None \<and> t2 = None \<and> t4 = None \<and> t6 = None")
    case True
    then have "r = a3" using e by simp
    then show ?thesis using True obs_filter_present [OF o, of t1 t2 t3 t4 t5 t6 co] by simp
  next
    case False
    define m where "m = subset_mask (length (obs_names ad)) cnt pc tot t1 t2 t3 t4 t5 t6"
    define k where "k = length (filter id m)"
    have lm: "length m = length (obs_names ad)"
      unfolding m_def using l by (simp add: length_subset_mask)
    have r: "r = inplace_subset_obs a3 m"
      using e False by (simp add: m_def n)
    have names: "obs_names r = bool_index m (obs_names ad)"
      by (simp add: r inplace_subset_obs_def n)
    have ln: "length (obs_names r) = k"
      unfolding names k_def using lm by (simp add: length_bool_index)
    have xr: "X r = bool_index m (X ad)"
      by (simp add: r inplace_subset_obs_def x)
    have lxr: "length (X r) = k"
      unfolding xr k_def using lm lx by (simp add: length_bool_index)
    have o': "obs r ''n_counts'' = Some (index_column m tot)"
      "obs r nk = Some (index_column m cnt)" "obs r pk = Some (index_column m pc)"
      unfolding r using o by (simp_all add: obs_index_column)
    have m2: "subset_mask (length (obs_names r)) (index_column m cnt) (index_column m pc)
                (index_column m tot) t1 t2 t3 t4 t5 t6 = replicate k True"
      unfolding ln
      by (rule subset_mask_idem [OF l(2) l(3) l(1) m_def k_def])
    have "obs_filter nk pk r t1 t2 t3 t4 t5 t6 co = inplace_subset_obs r (replicate k True)"
      using obs_filter_present [OF o', of t1 t2 t3 t4 t5 t6 co] False m2 by simp
    then show ?thesis
      using ln lxr by (simp add: inplace_subset_obs_def bool_index_all_True)
  qed
qed

lemma var_filter_shape:
  assumes wf: "wf_adata ad"
  obtains a3 tot cnt pc where
    "var_filter nk pk ad t1 t2 t3 t4 t5 t6 co =
      (if t1 = None \<and> t3 = None \<and> t5 = None \<and> t2 = None \<and> t4 = None \<and> t6 = None then a3
       else inplace_subset_var a3
              (subset_mask (length (var_names a3)) cnt pc tot t1 t2 t3 t4 t5 t6))"
    "X a3 = X ad" "obs_names a3 = obs_names ad" "var_names a3 = var_names ad"
    "var a3 ''n_counts'' = Some tot" "var a3 nk = Some cnt" "var a3 pk = Some pc"
    "col_len tot = length (var_names ad)" "col_len cnt = length (var_names ad)"
    "col_len pc = length (var_names ad)"
proof -
  have lc: "\<And>k c. var ad k = Some c \<Longrightarrow> col_len c = length (var_names ad)"
    using wf by (simp add: wf_adata_def shape1_def)
  obtain tot a1 where 1:
    "var_column ad ''n_counts'' (int_col (col_sums (shape1 ad) (X ad))) = (tot, a1)"
    by (cases "var_column ad ''n_counts'' (int_col (col_sums (shape1 ad) (X ad)))")
  obtain cnt a2 where 2:
    "var_column a1 nk (count_col (col_counts co (shape1 a1) (X a1))) = (cnt, a2)"
    by (cases "var_column a1 nk (count_col (col_counts co (shape1 a1) (X a1)))")
  obtain pc a3 where 3: "var_column a2 pk (col_div cnt (shape0 a2)) = (pc, a3)"
    by (cases "var_column a2 pk (col_div cnt (shape0 a2))")
  note r1 = var_column_result [OF 1]
  note r2 = var_column_result [OF 2]
  note r3 = var_column_result [OF 3]
  have ltot: "col_len tot = length (var_names ad)"
    using r1(8) lc by (auto simp: shape1_def)
  have lc1: "\<And>k c. var a1 k = Some c \<Longrightarrow> col_len c = length (var_names ad)"
    using r1(9) lc by (fastforce simp: shape1_def)
  have lcnt: "col_len cnt = length (var_names ad)"
    using r2(8) lc1 r1(5) by (auto simp: shape1_def)
  have lc2: "\<And>k c. var a2 k = Some c \<Longrightarrow> col_len c = length (var_names ad)"
    using r2(9) lc1 r1(5) by (fastforce simp: shape1_def)
  have lpc: "col_len pc = length (var_names ad)"
    using r3(8) lc2 lcnt by auto
  have e: "var_filter nk pk ad t1 t2 t3 t4 t5 t6 co =
      (if t1 = None \<and> t3 = None \<and> t5 = None \<and> t2 = None \<and> t4 = None \<and> t6 = None then a3
       else inplace_subset_var a3
              (subset_mask (length (var_names a3)) cnt pc tot t1 t2 t3 t4 t5 t6))"
    unfolding var_filter_def 1 prod.case Let_def 2 3 by (rule refl)
  show ?thesis
  proof (rule that [OF e])
    show "X a3 = X ad" by (simp add: r1 r2 r3)
    show "obs_names a3 = obs_names ad" by (simp add: r1 r2 r3)
    show "var_names a3 = var_names ad" by (simp add: r1 r2 r3)
    show "var a3 ''n_counts'' = Some tot" by (intro r3(7) r2(7) r1(1))
    show "var a3 nk = Some cnt" by (intro r3(7) r2(1))
    show "var a3 pk = Some pc" by (rule r3(1))
  qed (rule ltot lcnt lpc)+
qed

lemma map_bool_index_all_True:
  "list_all (\<lambda>r. length r = k) rows \<Longrightarrow> map (bool_index (replicate k True)) rows = rows"
  by (induction rows) (simp_all add: bool_index_all_True)

lemma var_filter_idem:
  assumes wf: "wf_adata ad"
    and r_def: "r = var_filter nk pk ad t1 t2 t3 t4 t5 t6 co"
  shows "X (var_filter nk pk r t1 t2 t3 t4 t5 t6 co) = X r \<and>
         obs_names (var_filter nk pk r t1 t2 t3 t4 t5 t6 co) = obs_names r \<and>
         var_names (var_filter nk pk r t1 t2 t3 t4 t5 t6 co) = var_names r"
proof -
  have lx: "list_all (\<lambda>row. length row = length (var_names ad)) (X ad)"
    using wf by (simp add: wf_adata_def aligned_def shape1_def)
  obtain a3 tot cnt pc where
    e: "r = (if t1 = None \<and> t3 = None \<and> t5 = None \<and> t2 = None \<and> t4 = None \<and> t6 = None then a3
       else inplace_subset_var a3
              (subset_mask (length (var_names a3)) cnt pc tot t1 t2 t3 t4 t5 t6))"
    and x: "X a3 = X ad" and n: "var_names a3 = var_names ad"
    and o: "var a3 ''n_counts'' = Some tot" "var a3 nk = Some cnt" "var a3 pk = Some pc"
    and l: "col_len tot = length (var_names ad)" "col_len cnt = length (var_names ad)"
      "col_len pc = length (var_names ad)"
    unfolding r_def by (rule var_filter_shape [OF wf, of nk pk t1 t2 t3 t4 t5 t6 co]) blast
  show ?thesis
  proof (cases "t1 = None \<and> t3 = None \<and> t5 = None \<and> t2 = None \<and> t4 = None \<and> t6 = None")
    case True
    then have "r = a3" using e by simp
    then show ?thesis using True var_filter_present [OF o, of t1 t2 t3 t4 t5 t6 co] by simp
  next
    case False
    define m where "m = subset_mask (length (var_names ad)) cnt pc tot t1 t2 t3 t4 t5 t6"
    define k where "k = length (filter id m)"
    have lm: "length m = length (var_names ad)"
      unfolding m_def using l by (simp add: length_subset_mask)
    have r: "r = inplace_subset_var a3 m"
      using e False by (simp add: m_def n)
    have names: "var_names r = bool_index m (var_names ad)"
      by (simp add: r inplace_subset_var_def n)
    have ln: "length (var_names r) = k"
      unfolding names k_def using lm by (simp add: length_bool_index)
    have xr: "X r = map (bool_index m) (X ad)"
      by (simp add: r inplace_subset_var_def x)
    have lxr: "list_all (\<lambda>row. length row = k) (X r)"
      unfolding xr k_def using lm lx
      by (simp add: list_all_iff length_bool_index)
    have o': "var r ''n_counts'' = Some (index_column m tot)"
      "var r nk = Some (index_column m cnt)" "var r pk = Some (index_column m pc)"
      unfolding r using o by (simp_all add: var_index_column)
    have m2: "subset_mask (length (var_names r)) (index_column m cnt) (index_column m pc)
                (index_column m tot) t1 t2 t3 t4 t5 t6 = replicate k True"
      unfolding ln
      by (rule subset_mask_idem [OF l(2) l(3) l(1) m_def k_def])
    have "var_filter nk pk r t1 t2 t3 t4 t5 t6 co = inplace_subset_var r (replicate k True)"
      using var_filter_present [OF o', of t1 t2 t3 t4 t5 t6 co] False m2 by simp
    then show ?thesis
      using ln lxr by (simp add: inplace_subset_var_def bool_index_all_True
          map_bool_index_all_True)
  qed
qed

lemma obs_column_frame: "\<exists>tbl. snd (obs_column ad k d) = ad\<lparr>obs := tbl\<rparr>"
proof (cases "obs ad k")
  case None
  then show ?thesis by (auto simp: obs_column_def)
next
  case (Some c)
  then have "snd (obs_column ad k d) = ad\<lparr>obs := obs ad\<rparr>" by (simp add: obs_column_def)
  then show ?thesis by blast
qed

lemma var_column_frame: "\<exists>tbl. snd (var_column ad k d) = ad\<lparr>var := tbl\<rparr>"
proof (cases "var ad k")
  case None
  then show ?thesis by (auto simp: var_column_def)
next
  case (Some c)
  then have "snd (var_column ad k d) = ad\<lparr>var := var ad\<rparr>" by (simp add: var_column_def)
  then show ?thesis by blast
qed

lemma obs_filter_noop:
  "\<exists>tbl. obs_filter nk pk ad None None None None None None co = ad\<lparr>obs := tbl\<rparr>"
proof -
  obtain tot a1 where 1: "obs_column ad ''n_counts'' (int_col (row_sums (X ad))) = (tot, a1)"
    by (cases "obs_column ad ''n_counts'' (int_col (row_sums (X ad)))")
  obtain cnt a2 where 2: "obs_column a1 nk (count_col (row_counts co (X a1))) = (cnt, a2)"
    by (cases "obs_column a1 nk (count_col (row_counts co (X a1)))")
  obtain pc a3 where 3: "obs_column a2 pk (col_div cnt (shape1 a2)) = (pc, a3)"
    by (cases "obs_column a2 pk (col_div cnt (shape1 a2))")
  have e: "obs_filter nk pk ad None None None None None None co = a3"
    unfolding obs_filter_def 1 prod.case Let_def 2 3 by simp
  obtain u1 where "a1 = ad\<lparr>obs := u1\<rparr>"
    using obs_column_frame [of ad "''n_counts''" "int_col (row_sums (X ad))"] 1 by auto
  moreover obtain u2 where "a2 = a1\<lparr>obs := u2\<rparr>"
    using obs_column_frame [of a1 nk "count_col (row_counts co (X a1))"] 2 by auto
  moreover obtain u3 where "a3 = a2\<lparr>obs := u3\<rparr>"
    using obs_column_frame [of a2 pk "col_div cnt (shape1 a2)"] 3 by auto
  ultimately have "a3 = ad\<lparr>obs := u3\<rparr>" by simp
  then show ?thesis unfolding e by blast
qed

lemma var_filter_noop:
  "\<exists>tbl. var_filter nk pk ad None None None None None None co = ad\<lparr>var := tbl\<rparr>"
proof -
  obtain tot a1 where 1:
    "var_column ad ''n_counts'' (int_col (col_sums (shape1 ad) (X ad))) = (tot, a1)"
    by (cases "var_column ad ''n_counts'' (int_col (col_sums (shape1 ad) (X ad)))")
  obtain cnt a2 where 2:
    "var_column a1 nk (count_col (col_counts co (shape1 a1) (X a1))) = (cnt, a2)"
    by (cases "var_column a1 nk (count_col (col_counts co (shape1 a1) (X a1)))")
  obtain pc a3 where 3: "var_column a2 pk (col_div cnt (shape0 a2)) = (pc, a3)"
    by (cases "var_column a2 pk (col_div cnt (shape0 a2))")
  have e: "var_filter nk pk ad None None None None None None co = a3"
    unfolding var_filter_def 1 prod.case Let_def 2 3 by simp
  obtain u1 where "a1 = ad\<lparr>var := u1\<rparr>"
    using var_column_frame [of ad "''n_counts''" "int_col (col_sums (shape1 ad) (X ad))"] 1
    by auto
  moreover obtain u2 where "a2 = a1\<lparr>var := u2\<rparr>"
    using var_column_frame [of a1 nk "count_col (col_counts co (shape1 a1) (X a1))"] 2
    by auto
  moreover obtain u3 where "a3 = a2\<lparr>var := u3\<rparr>"
    using var_column_frame [of a2 pk "col_div cnt (shape0 a2)"] 3 by auto
  ultimately have "a3 = ad\<lparr>var := u3\<rparr>" by simp
  then show ?thesis unfolding e by blast
qed

lemma wf_filter_example: "wf_adata filter_example"
  by (simp add: wf_adata_def filter_example_def aligned_def shape0_def shape1_def)

lemma trunc_of_int [simp]: "trunc (of_int i) = i"
  by (simp add: trunc_def)

lemma trunc_numeral [simp]: "trunc (numeral n) = numeral n" "trunc 0 = 0" "trunc 1 = 1"
  by (simp_all add: trunc_def)

subsection \<open>The filters on an ndarray\<close>

lemma flat_value_test:
  "flat_value v c \<Longrightarrow> flat_value (ge_test v t) (ge_mask c t)"
  "flat_value v c \<Longrightarrow> flat_value (le_test v t) (le_mask c t)"
  "flat_value v c \<Longrightarrow> flat_value (divided v d) (col_div c d)"
  by (auto simp: flat_value_def ge_test_def le_test_def divided_def)

lemma flat_value_entries: "flat_value v c \<Longrightarrow> entries v = c"
  by (auto simp: flat_value_def)

lemma band_flat:
  "flat_value test bs \<Longrightarrow> flat_subset (Inr m) ms \<Longrightarrow> flat_subset (band test m) (vand bs ms)"
  by (auto simp: flat_value_def flat_subset_def)

lemma threshold_flat:
  assumes "\<And>x. flat_value (test x) (f x)" and "flat_subset (fst st) ms"
  shows "flat_subset (fst (threshold t msg test st)) (apply_threshold t f ms)"
proof (cases t)
  case None
  with assms(2) show ?thesis by (simp add: threshold_def apply_threshold_def)
next
  case (Some x)
  from assms(2) obtain m where m: "fst st = Inr m" by (auto simp: flat_subset_def)
  with assms(2) have "flat_subset (Inr m) ms" by simp
  from band_flat [OF assms(1) this] Some m show ?thesis
    by (simp add: threshold_def apply_threshold_def)
qed

lemma subset_mask_flat:
  assumes n: "flat_value n cnt" and p: "flat_value p pc" and t: "flat_value tc tot"
  shows "flat_subset
     (fst (threshold f m6 (le_test tc)
       (threshold e m5 (ge_test tc)
         (threshold d m4 (le_test p)
           (threshold c m3 (ge_test p)
             (threshold b m2 (le_test n)
               (threshold a m1 (ge_test n) (Inr (Array1 (replicate k True)), []))))))))
     (subset_mask k cnt pc tot a b c d e f)"
  unfolding subset_mask_def
  by (intro threshold_flat flat_value_test n p t) (simp add: flat_subset_def)

lemma subset_obs_flat:
  "flat_subset r bs \<Longrightarrow> subset_obs ad r = (inplace_subset_obs ad bs, None)"
  by (auto simp: flat_subset_def subset_obs_def)

lemma subset_var_flat:
  "flat_subset r bs \<Longrightarrow> subset_var ad r = (inplace_subset_var ad bs, None)"
  by (auto simp: flat_subset_def subset_var_def)

lemma issparse_obs_column [simp]: "issparse (snd (obs_column ad k c)) = issparse ad"
  by (simp add: obs_column_def split: option.splits)

lemma issparse_var_column [simp]: "issparse (snd (var_column ad k c)) = issparse ad"
  by (simp add: var_column_def split: option.splits)

lemma obs_value_flat:
  assumes "computed = Inr v" "flat_value v c"
  shows "\<exists>w. obs_value ad key computed = (snd (obs_column ad key c), Inr w) \<and>
             flat_value w (fst (obs_column ad key c))"
  using assms
  by (auto simp: obs_value_def obs_column_def flat_value_def split: option.splits)

lemma var_value_flat:
  assumes "computed = Inr v" "flat_value v c"
  shows "\<exists>w. var_value ad key computed = (snd (var_column ad key c), Inr w) \<and>
             flat_value w (fst (var_column ad key c))"
  using assms
  by (auto simp: var_value_def var_column_def flat_value_def split: option.splits)

lemma np_sum_dense:
  "\<not> issparse ad \<Longrightarrow> flat_value (np_sum ad c) c"
  "\<not> issparse ad \<Longrightarrow> np_sum_ge ad co c = Inr (np_sum ad c)"
  by (simp_all add: np_sum_def np_sum_ge_def flat_value_def)

lemma filter_samples_dense:
  assumes dense: "\<not> issparse ad"
  shows "filter_samples ad a b c d e f co =
     (obs_filter ''n_features'' ''pct_features'' ad a b c d e f co,
      fst (snd (filter_samples ad a b c d e f co)), None)"
    and "fst (snd (filter_samples ad None None None None None None co)) = [''No filtering'']"
proof -
  obtain tot a1 where 1: "obs_column ad ''n_counts'' (int_col (row_sums (X ad))) = (tot, a1)"
    by (cases "obs_column ad ''n_counts'' (int_col (row_sums (X ad)))")
  obtain cnt a2 where 2: "obs_column a1 ''n_features'' (count_col (row_counts co (X a1))) = (cnt, a2)"
    by (cases "obs_column a1 ''n_features'' (count_col (row_counts co (X a1)))")
  obtain pc a3 where 3: "obs_column a2 ''pct_features'' (col_div cnt (shape1 a2)) = (pc, a3)"
    by (cases "obs_column a2 ''pct_features'' (col_div cnt (shape1 a2))")
  from issparse_obs_column [of ad "''n_counts''" "int_col (row_sums (X ad))"] dense
  have d1: "\<not> issparse a1" by (simp add: 1)
  have "\<exists>w. obs_value ad ''n_counts'' (Inr (np_sum ad (int_col (row_sums (X ad))))) =
          (snd (obs_column ad ''n_counts'' (int_col (row_sums (X ad)))), Inr w) \<and>
        flat_value w (fst (obs_column ad ''n_counts'' (int_col (row_sums (X ad)))))"
    by (rule obs_value_flat [OF refl np_sum_dense(1) [OF dense]])
  then obtain v1 where v1: "obs_value ad ''n_counts'' (Inr (np_sum ad (int_col (row_sums (X ad))))) =
      (a1, Inr v1)" and f1: "flat_value v1 tot"
    by (auto simp: 1)
  have "\<exists>w. obs_value a1 ''n_features'' (np_sum_ge a1 co (count_col (row_counts co (X a1)))) =
          (snd (obs_column a1 ''n_features'' (count_col (row_counts co (X a1)))), Inr w) \<and>
        flat_value w (fst (obs_column a1 ''n_features'' (count_col (row_counts co (X a1)))))"
    by (rule obs_value_flat [OF np_sum_dense(2) [OF d1] np_sum_dense(1) [OF d1]])
  then obtain v2 where v2: "obs_value a1 ''n_features''
      (np_sum_ge a1 co (count_col (row_counts co (X a1)))) = (a2, Inr v2)"
    and f2: "flat_value v2 cnt"
    by (auto simp: 2)
  have "\<exists>w. obs_value a2 ''pct_features'' (Inr (divided v2 (shape1 a2))) =
          (snd (obs_column a2 ''pct_features'' (col_div cnt (shape1 a2))), Inr w) \<and>
        flat_value w (fst (obs_column a2 ''pct_features'' (col_div cnt (shape1 a2))))"
    by (rule obs_value_flat [OF refl flat_value_test(3) [OF f2]])
  then obtain v3 where v3: "obs_value a2 ''pct_features'' (Inr (divided v2 (shape1 a2))) =
      (a3, Inr v3)" and f3: "flat_value v3 pc"
    by (auto simp: 3)
  note tail = subset_obs_flat [OF subset_mask_flat [OF f2 f3 f1], of a3]
  show "filter_samples ad a b c d e f co =
     (obs_filter ''n_features'' ''pct_features'' ad a b c d e f co,
      fst (snd (filter_samples ad a b c d e f co)), None)"
    unfolding filter_samples_def obs_filter_def v1 v2 v3 1 2 3 Let_def prod.case sum.case
      six_None tail
    by simp
  show "fst (snd (filter_samples ad None None None None None None co)) = [''No filtering'']"
    unfolding filter_samples_def v1 v2 v3 prod.case sum.case
    by simp
qed

lemma filter_cells_rna_dense:
  assumes dense: "\<not> issparse ad"
  shows "filter_cells_rna ad a b c d e f co =
     (obs_filter ''n_genes'' ''pct_genes'' ad a b c d e f co,
      fst (snd (filter_cells_rna ad a b c d e f co)), None)"
    and "fst (snd (filter_cells_rna ad None None None None None None co)) = [''No filtering'']"
proof -
  obtain tot a1 where 1: "obs_column ad ''n_counts'' (int_col (row_sums (X ad))) = (tot, a1)"
    by (cases "obs_column ad ''n_counts'' (int_col (row_sums (X ad)))")
  obtain cnt a2 where 2: "obs_column a1 ''n_genes'' (count_col (row_counts co (X a1))) = (cnt, a2)"
    by (cases "obs_column a1 ''n_genes'' (count_col (row_counts co (X a1)))")
  obtain pc a3 where 3: "obs_column a2 ''pct_genes'' (col_div cnt (shape1 a2)) = (pc, a3)"
    by (cases "obs_column a2 ''pct_genes'' (col_div cnt (shape1 a2))")
  from issparse_obs_column [of ad "''n_counts''" "int_col (row_sums (X ad))"] dense
  have d1: "\<not> issparse a1" by (simp add: 1)
  have "\<exists>w. obs_value ad ''n_counts'' (Inr (np_sum ad (int_col (row_sums (X ad))))) =
          (snd (obs_column ad ''n_counts'' (int_col (row_sums (X ad)))), Inr w) \<and>
        flat_value w (fst (obs_column ad ''n_counts'' (int_col (row_sums (X ad)))))"
    by (rule obs_value_flat [OF refl np_sum_dense(1) [OF dense]])
  then obtain v1 where v1: "obs_value ad ''n_counts'' (Inr (np_sum ad (int_col (row_sums (X ad))))) =
      (a1, Inr v1)" and f1: "flat_value v1 tot"
    by (auto simp: 1)
  have "\<exists>w. obs_value a1 ''n_genes'' (np_sum_ge a1 co (count_col (row_counts co (X a1)))) =
          (snd (obs_column a1 ''n_genes'' (count_col (row_counts co (X a1)))), Inr w) \<and>
        flat_value w (fst (obs_column a1 ''n_genes'' (count_col (row_counts co (X a1)))))"
    by (rule obs_value_flat [OF np_sum_dense(2) [OF d1] np_sum_dense(1) [OF d1]])
  then obtain v2 where v2: "obs_value a1 ''n_genes''
      (np_sum_ge a1 co (count_col (row_counts co (X a1)))) = (a2, Inr v2)"
    and f2: "flat_value v2 cnt"
    by (auto simp: 2)
  have "\<exists>w. obs_value a2 ''pct_genes'' (Inr (divided v2 (shape1 a2))) =
          (snd (obs_column a2 ''pct_genes'' (col_div cnt (shape1 a2))), Inr w) \<and>
        flat_value w (fst (obs_column a2 ''pct_genes'' (col_div cnt (shape1 a2))))"
    by (rule obs_value_flat [OF refl flat_value_test(3) [OF f2]])
  then obtain v3 where v3: "obs_value a2 ''pct_genes'' (Inr (divided v2 (shape1 a2))) =
      (a3, Inr v3)" and f3: "flat_value v3 pc"
    by (auto simp: 3)
  note tail = subset_obs_flat [OF subset_mask_flat [OF f2 f3 f1], of a3]
  show "filter_cells_rna ad a b c d e f co =
     (obs_filter ''n_genes'' ''pct_genes'' ad a b c d e f co,
      fst (snd (filter_cells_rna ad a b c d e f co)), None)"
    unfolding filter_cells_rna_def obs_filter_def v1 v2 v3 1 2 3 Let_def prod.case sum.case
      six_None tail
    by simp
  show "fst (snd (filter_cells_rna ad None None None None None None co)) = [''No filtering'']"
    unfolding filter_cells_rna_def v1 v2 v3 prod.case sum.case
    by simp
qed

lemma filter_cells_atac_dense:
  assumes dense: "\<not> issparse ad"
  shows "filter_cells_atac ad a b c d e f co =
     (obs_filter ''n_peaks'' ''pct_peaks'' ad a b c d e f co,
      fst (snd (filter_cells_atac ad a b c d e f co)), None)"
    and "fst (snd (filter_cells_atac ad None None None None None None co)) = [''No filtering'']"
proof -
  obtain tot a1 where 1: "obs_column ad ''n_counts'' (int_col (row_sums (X ad))) = (tot, a1)"
    by (cases "obs_column ad ''n_counts'' (int_col (row_sums (X ad)))")
  obtain cnt a2 where 2: "obs_column a1 ''n_peaks'' (count_col (row_counts co (X a1))) = (cnt, a2)"
    by (cases "obs_column a1 ''n_peaks'' (count_col (row_counts co (X a1)))")
  obtain pc a3 where 3: "obs_column a2 ''pct_peaks'' (col_div cnt (shape1 a2)) = (pc, a3)"
    by (cases "obs_column a2 ''pct_peaks'' (col_div cnt (shape1 a2))")
  from issparse_obs_column [of ad "''n_counts''" "int_col (row_sums (X ad))"] dense
  have d1: "\<not> issparse a1" by (simp add: 1)
  have "\<exists>w. obs_value ad ''n_counts'' (Inr (np_sum ad (int_col (row_sums (X ad))))) =
          (snd (obs_column ad ''n_counts'' (int_col (row_sums (X ad)))), Inr w) \<and>
        flat_value w (fst (obs_column ad ''n_counts'' (int_col (row_sums (X ad)))))"
    by (rule obs_value_flat [OF refl np_sum_dense(1) [OF dense]])
  then obtain v1 where v1: "obs_value ad ''n_counts'' (Inr (np_sum ad (int_col (row_sums (X ad))))) =
      (a1, Inr v1)" and f1: "flat_value v1 tot"
    by (auto simp: 1)
  have "\<exists>w. obs_value a1 ''n_peaks'' (np_sum_ge a1 co (count_col (row_counts co (X a1)))) =
          (snd (obs_column a1 ''n_peaks'' (count_col (row_counts co (X a1)))), Inr w) \<and>
        flat_value w (fst (obs_column a1 ''n_peaks'' (count_col (row_counts co (X a1)))))"
    by (rule obs_value_flat [OF np_sum_dense(2) [OF d1] np_sum_dense(1) [OF d1]])
  then obtain v2 where v2: "obs_value a1 ''n_peaks''
      (np_sum_ge a1 co (count_col (row_counts co (X a1)))) = (a2, Inr v2)"
    and f2: "flat_value v2 cnt"
    by (auto simp: 2)
  have "\<exists>w. obs_value a2 ''pct_peaks'' (Inr (divided v2 (shape1 a2))) =
          (snd (obs_column a2 ''pct_peaks'' (col_div cnt (shape1 a2))), Inr w) \<and>
        flat_value w (fst (obs_column a2 ''pct_peaks'' (col_div cnt (shape1 a2))))"
    by (rule obs_value_flat [OF refl flat_value_test(3) [OF f2]])
  then obtain v3 where v3: "obs_value a2 ''pct_peaks'' (Inr (divided v2 (shape1 a2))) =
      (a3, Inr v3)" and f3: "flat_value v3 pc"
    by (auto simp: 3)
  note tail = subset_obs_flat [OF subset_mask_flat [OF f2 f3 f1], of a3]
  show "filter_cells_atac ad a b c d e f co =
     (obs_filter ''n_peaks'' ''pct_peaks'' ad a b c d e f co,
      fst (snd (filter_cells_atac ad a b c d e f co)), None)"
    unfolding filter_cells_atac_def obs_filter_def v1 v2 v3 1 2 3 Let_def prod.case sum.case
      six_None tail
    by simp
  show "fst (snd (filter_cells_atac ad None None None None None None co)) = [''No filtering'']"
    unfolding filter_cells_atac_def v1 v2 v3 prod.case sum.case
    by simp
qed

lemma filter_genes_dense:
  assumes dense: "\<not> issparse ad"
  shows "filter_genes ad a b c d e f co =
     (var_filter ''n_cells'' ''pct_cells'' ad a b c d e f co,
      fst (snd (filter_genes ad a b c d e f co)), None)"
    and "fst (snd (filter_genes ad None None None None None None co)) = [''No filtering'']"
proof -
  obtain tot a1 where 1: "var_column ad ''n_counts'' (int_col (col_sums (shape1 ad) (X ad))) = (tot, a1)"
    by (cases "var_column ad ''n_counts'' (int_col (col_sums (shape1 ad) (X ad)))")
  obtain cnt a2 where 2: "var_column a1 ''n_cells'' (count_col (col_counts co (shape1 a1) (X a1))) = (cnt, a2)"
    by (cases "var_column a1 ''n_cells'' (count_col (col_counts co (shape1 a1) (X a1)))")
  obtain pc a3 where 3: "var_column a2 ''pct_cells'' (col_div cnt (shape0 a2)) = (pc, a3)"
    by (cases "var_column a2 ''pct_cells'' (col_div cnt (shape0 a2))")
  from issparse_var_column [of ad "''n_counts''" "int_col (col_sums (shape1 ad) (X ad))"] dense
  have d1: "\<not> issparse a1" by (simp add: 1)
  have "\<exists>w. var_value ad ''n_counts'' (Inr (np_sum ad (int_col (col_sums (shape1 ad) (X ad))))) =
          (snd (var_column ad ''n_counts'' (int_col (col_sums (shape1 ad) (X ad)))), Inr w) \<and>
        flat_value w (fst (var_column ad ''n_counts'' (int_col (col_sums (shape1 ad) (X ad)))))"
    by (rule var_value_flat [OF refl np_sum_dense(1) [OF dense]])
  then obtain v1 where v1: "var_value ad ''n_counts'' (Inr (np_sum ad (int_col (col_sums (shape1 ad) (X ad))))) =
      (a1, Inr v1)" and f1: "flat_value v1 tot"
    by (auto simp: 1)
  have "\<exists>w. var_value a1 ''n_cells'' (np_sum_ge a1 co (count_col (col_counts co (shape1 a1) (X a1)))) =
          (snd (var_column a1 ''n_cells'' (count_col (col_counts co (shape1 a1) (X a1)))), Inr w) \<and>
        flat_value w (fst (var_column a1 ''n_cells'' (count_col (col_counts co (shape1 a1) (X a1)))))"
    by (rule var_value_flat [OF np_sum_dense(2) [OF d1] np_sum_dense(1) [OF d1]])
  then obtain v2 where v2: "var_value a1 ''n_cells''
      (np_sum_ge a1 co (count_col (col_counts co (shape1 a1) (X a1)))) = (a2, Inr v2)"
    and f2: "flat_value v2 cnt"
    by (auto simp: 2)
  have "\<exists>w. var_value a2 ''pct_cells'' (Inr (divided v2 (shape0 a2))) =
          (snd (var_column a2 ''pct_cells'' (col_div cnt (shape0 a2))), Inr w) \<and>
        flat_value w (fst (var_column a2 ''pct_cells'' (col_div cnt (shape0 a2))))"
    by (rule var_value_flat [OF refl flat_value_test(3) [OF f2]])
  then obtain v3 where v3: "var_value a2 ''pct_cells'' (Inr (divided v2 (shape0 a2))) =
      (a3, Inr v3)" and f3: "flat_value v3 pc"
    by (auto simp: 3)
  note tail = subset_var_flat [OF subset_mask_flat [OF f2 f3 f1], of a3]
  show "filter_genes ad a b c d e f co =
     (var_filter ''n_cells'' ''pct_cells'' ad a b c d e f co,
      fst (snd (filter_genes ad a b c d e f co)), None)"
    unfolding filter_genes_def var_filter_def v1 v2 v3 1 2 3 Let_def prod.case sum.case
      six_None tail
    by simp
  show "fst (snd (filter_genes ad None None None None None None co)) = [''No filtering'']"
    unfolding filter_genes_def v1 v2 v3 prod.case sum.case
    by simp
qed

lemma filter_peaks_dense:
  assumes dense: "\<not> issparse ad"
  shows "filter_peaks ad a b c d e f co =
     (var_filter ''n_cells'' ''pct_cells'' ad a b c d e f co,
      fst (snd (filter_peaks ad a b c d e f co)), None)"
    and "fst (snd (filter_peaks ad None None None None None None co)) = [''No filtering'']"
proof -
  obtain tot a1 where 1: "var_column ad ''n_counts'' (int_col (col_sums (shape1 ad) (X ad))) = (tot, a1)"
    by (cases "var_column ad ''n_counts'' (int_col (col_sums (shape1 ad) (X ad)))")
  obtain cnt a2 where 2: "var_column a1 ''n_cells'' (count_col (col_counts co (shape1 a1) (X a1))) = (cnt, a2)"
    by (cases "var_column a1 ''n_cells'' (count_col (col_counts co (shape1 a1) (X a1)))")
  obtain pc a3 where 3: "var_column a2 ''pct_cells'' (col_div cnt (shape0 a2)) = (pc, a3)"
    by (cases "var_column a2 ''pct_cells'' (col_div cnt (shape0 a2))")
  from issparse_var_column [of ad "''n_counts''" "int_col (col_sums (shape1 ad) (X ad))"] dense
  have d1: "\<not> issparse a1" by (simp add: 1)
  have "\<exists>w. var_value ad ''n_counts'' (Inr (np_sum ad (int_col (col_sums (shape1 ad) (X ad))))) =
          (snd (var_column ad ''n_counts'' (int_col (col_sums (shape1 ad) (X ad)))), Inr w) \<and>
        flat_value w (fst (var_column ad ''n_counts'' (int_col (col_sums (shape1 ad) (X ad)))))"
    by (rule var_value_flat [OF refl np_sum_dense(1) [OF dense]])
  then obtain v1 where v1: "var_value ad ''n_counts'' (Inr (np_sum ad (int_col (col_sums (shape1 ad) (X ad))))) =
      (a1, Inr v1)" and f1: "flat_value v1 tot"
    by (auto simp: 1)
  have "\<exists>w. var_value a1 ''n_cells'' (np_sum_ge a1 co (count_col (col_counts co (shape1 a1) (X a1)))) =
          (snd (var_column a1 ''n_cells'' (count_col (col_counts co (shape1 a1) (X a1)))), Inr w) \<and>
        flat_value w (fst (var_column a1 ''n_cells'' (count_col (col_counts co (shape1 a1) (X a1)))))"
    by (rule var_value_flat [OF np_sum_dense(2) [OF d1] np_sum_dense(1) [OF d1]])
  then obtain v2 where v2: "var_value a1 ''n_cells''
      (np_sum_ge a1 co (count_col (col_counts co (shape1 a1) (X a1)))) = (a2, Inr v2)"
    and f2: "flat_value v2 cnt"
    by (auto simp: 2)
  have "\<exists>w. var_value a2 ''pct_cells'' (Inr (divided v2 (shape0 a2))) =
          (snd (var_column a2 ''pct_cells'' (col_div cnt (shape0 a2))), Inr w) \<and>
        flat_value w (fst (var_column a2 ''pct_cells'' (col_div cnt (shape0 a2))))"
    by (rule var_value_flat [OF refl flat_value_test(3) [OF f2]])
  then obtain v3 where v3: "var_value a2 ''pct_cells'' (Inr (divided v2 (shape0 a2))) =
      (a3, Inr v3)" and f3: "flat_value v3 pc"
    by (auto simp: 3)
  note tail = subset_var_flat [OF subset_mask_flat [OF f2 f3 f1], of a3]
  show "filter_peaks ad a b c d e f co =
     (var_filter ''n_cells'' ''pct_cells'' ad a b c d e f co,
      fst (snd (filter_peaks ad a b c d e f co)), None)"
    unfolding filter_peaks_def var_filter_def v1 v2 v3 1 2 3 Let_def prod.case sum.case
      six_None tail
    by simp
  show "fst (snd (filter_peaks ad None None None None None None co)) = [''No filtering'']"
    unfolding filter_peaks_def v1 v2 v3 prod.case sum.case
    by simp
qed

lemma filter_features_dense:
  assumes dense: "\<not> issparse ad"
  shows "filter_features ad a b c d e f co =
     (var_filter ''n_samples'' ''pct_samples'' ad a b c d e f co,
      fst (snd (filter_features ad a b c d e f co)), None)"
    and "fst (snd (filter_features ad None None None None None None co)) = [''No filtering'']"
proof -
  obtain tot a1 where 1: "var_column ad ''n_counts'' (int_col (col_sums (shape1 ad) (X ad))) = (tot, a1)"
    by (cases "var_column ad ''n_counts'' (int_col (col_sums (shape1 ad) (X ad)))")
  obtain cnt a2 where 2: "var_column a1 ''n_samples'' (count_col (col_counts co (shape1 a1) (X a1))) = (cnt, a2)"
    by (cases "var_column a1 ''n_samples'' (count_col (col_counts co (shape1 a1) (X a1)))")
  obtain pc a3 where 3: "var_column a2 ''pct_samples'' (col_div cnt (shape0 a2)) = (pc, a3)"
    by (cases "var_column a2 ''pct_samples'' (col_div cnt (shape0 a2))")
  from issparse_var_column [of ad "''n_counts''" "int_col (col_sums (shape1 ad) (X ad))"] dense
  have d1: "\<not> issparse a1" by (simp add: 1)
  have "\<exists>w. var_value ad ''n_counts'' (Inr (np_sum ad (int_col (col_sums (shape1 ad) (X ad))))) =
          (snd (var_column ad ''n_counts'' (int_col (col_sums (shape1 ad) (X ad)))), Inr w) \<and>
        flat_value w (fst (var_column ad ''n_counts'' (int_col (col_sums (shape1 ad) (X ad)))))"
    by (rule var_value_flat [OF refl np_sum_dense(1) [OF dense]])
  then obtain v1 where v1: "var_value ad ''n_counts'' (Inr (np_sum ad (int_col (col_sums (shape1 ad) (X ad))))) =
      (a1, Inr v1)" and f1: "flat_value v1 tot"
    by (auto simp: 1)
  have "\<exists>w. var_value a1 ''n_samples'' (np_sum_ge a1 co (count_col (col_counts co (shape1 a1) (X a1)))) =
          (snd (var_column a1 ''n_samples'' (count_col (col_counts co (shape1 a1) (X a1)))), Inr w) \<and>
        flat_value w (fst (var_column a1 ''n_samples'' (count_col (col_counts co (shape1 a1) (X a1)))))"
    by (rule var_value_flat [OF np_sum_dense(2) [OF d1] np_sum_dense(1) [OF d1]])
  then obtain v2 where v2: "var_value a1 ''n_samples''
      (np_sum_ge a1 co (count_col (col_counts co (shape1 a1) (X a1)))) = (a2, Inr v2)"
    and f2: "flat_value v2 cnt"
    by (auto simp: 2)
  have "\<exists>w. var_value a2 ''pct_samples'' (Inr (divided v2 (shape0 a2))) =
          (snd (var_column a2 ''pct_samples'' (col_div cnt (shape0 a2))), Inr w) \<and>
        flat_value w (fst (var_column a2 ''pct_samples'' (col_div cnt (shape0 a2))))"
    by (rule var_value_flat [OF refl flat_value_test(3) [OF f2]])
  then obtain v3 where v3: "var_value a2 ''pct_samples'' (Inr (divided v2 (shape0 a2))) =
      (a3, Inr v3)" and f3: "flat_value v3 pc"
    by (auto simp: 3)
  note tail = subset_var_flat [OF subset_mask_flat [OF f2 f3 f1], of a3]
  show "filter_features ad a b c d e f co =
     (var_filter ''n_samples'' ''pct_samples'' ad a b c d e f co,
      fst (snd (filter_features ad a b c d e f co)), None)"
    unfolding filter_features_def var_filter_def v1 v2 v3 1 2 3 Let_def prod.case sum.case
      six_None tail
    by simp
  show "fst (snd (filter_features ad None None None None None None co)) = [''No filtering'']"
    unfolding filter_features_def v1 v2 v3 prod.case sum.case
    by simp
qed

lemma issparse_inplace_subset [simp]:
  "issparse (inplace_subset_obs ad keep) = issparse ad"
  "issparse (inplace_subset_var ad keep) = issparse ad"
  by (simp_all add: inplace_subset_obs_def inplace_subset_var_def)

lemma issparse_obs_filter: "issparse (obs_filter nk pk ad t1 t2 t3 t4 t5 t6 co) = issparse ad"
proof -
  obtain tot a1 where 1: "obs_column ad ''n_counts'' (int_col (row_sums (X ad))) = (tot, a1)"
    by (cases "obs_column ad ''n_counts'' (int_col (row_sums (X ad)))")
  obtain cnt a2 where 2: "obs_column a1 nk (count_col (row_counts co (X a1))) = (cnt, a2)"
    by (cases "obs_column a1 nk (count_col (row_counts co (X a1)))")
  obtain pc a3 where 3: "obs_column a2 pk (col_div cnt (shape1 a2)) = (pc, a3)"
    by (cases "obs_column a2 pk (col_div cnt (shape1 a2))")
  from issparse_obs_column [of ad "''n_counts''" "int_col (row_sums (X ad))"]
  have s1: "issparse a1 = issparse ad" by (simp add: 1)
  from issparse_obs_column [of a1 nk "count_col (row_counts co (X a1))"]
  have s2: "issparse a2 = issparse a1" by (simp add: 2)
  from issparse_obs_column [of a2 pk "col_div cnt (shape1 a2)"]
  have s3: "issparse a3 = issparse a2" by (simp add: 3)
  show ?thesis
    unfolding obs_filter_def 1 2 3 Let_def prod.case
    by (simp add: s1 s2 s3)
qed

lemma issparse_var_filter: "issparse (var_filter nk pk ad t1 t2 t3 t4 t5 t6 co) = issparse ad"
proof -
  obtain tot a1 where 1:
    "var_column ad ''n_counts'' (int_col (col_sums (shape1 ad) (X ad))) = (tot, a1)"
    by (cases "var_column ad ''n_counts'' (int_col (col_sums (shape1 ad) (X ad)))")
  obtain cnt a2 where 2:
    "var_column a1 nk (count_col (col_counts co (shape1 a1) (X a1))) = (cnt, a2)"
    by (cases "var_column a1 nk (count_col (col_counts co (shape1 a1) (X a1)))")
  obtain pc a3 where 3: "var_column a2 pk (col_div cnt (shape0 a2)) = (pc, a3)"
    by (cases "var_column a2 pk (col_div cnt (shape0 a2))")
  from issparse_var_column [of ad "''n_counts''" "int_col (col_sums (shape1 ad) (X ad))"]
  have s1: "issparse a1 = issparse ad" by (simp add: 1)
  from issparse_var_column [of a1 nk "count_col (col_counts co (shape1 a1) (X a1))"]
  have s2: "issparse a2 = issparse a1" by (simp add: 2)
  from issparse_var_column [of a2 pk "col_div cnt (shape0 a2)"]
  have s3: "issparse a3 = issparse a2" by (simp add: 3)
  show ?thesis
    unfolding var_filter_def 1 2 3 Let_def prod.case
    by (simp add: s1 s2 s3)
qed

text \<open>
  On an \<open>ndarray\<close>, with all six thresholds \<open>None\<close>, each of the six filters prints the
  single line \<open>No filtering\<close>, raises nothing and subsets nothing: the container it
  returns differs from the one it received at most in the metadata table of the axis,
  where the missing count columns are stored.
\<close>

lemma dense_without_thresholds:
  assumes "\<not> issparse ad"
  shows
  "(\<exists>tbl. filter_samples ad None None None None None None co =
            (ad\<lparr>obs := tbl\<rparr>, [''No filtering''], None)) \<and>
   (\<exists>tbl. filter_cells_rna ad None None None None None None co =
            (ad\<lparr>obs := tbl\<rparr>, [''No filtering''], None)) \<and>
   (\<exists>tbl. filter_cells_atac ad None None None None None None co =
            (ad\<lparr>obs := tbl\<rparr>, [''No filtering''], None)) \<and>
   (\<exists>tbl. filter_genes ad None None None None None None co =
            (ad\<lparr>var := tbl\<rparr>, [''No filtering''], None)) \<and>
   (\<exists>tbl. filter_peaks ad None None None None None None co =
            (ad\<lparr>var := tbl\<rparr>, [''No filtering''], None)) \<and>
   (\<exists>tbl. filter_features ad None None None None None None co =
            (ad\<lparr>var := tbl\<rparr>, [''No filtering''], None))"
proof (intro conjI)
  show "\<exists>tbl. filter_samples ad None None None None None None co =
            (ad\<lparr>obs := tbl\<rparr>, [''No filtering''], None)"
    using filter_samples_dense(1) [OF assms, of None None None None None None co]
      filter_samples_dense(2) [OF assms, of co]
      obs_filter_noop [of "''n_features''" "''pct_features''" ad co]
    by auto
  show "\<exists>tbl. filter_cells_rna ad None None None None None None co =
            (ad\<lparr>obs := tbl\<rparr>, [''No filtering''], None)"
    using filter_cells_rna_dense(1) [OF assms, of None None None None None None co]
      filter_cells_rna_dense(2) [OF assms, of co]
      obs_filter_noop [of "''n_genes''" "''pct_genes''" ad co]
    by auto
  show "\<exists>tbl. filter_cells_atac ad None None None None None None co =
            (ad\<lparr>obs := tbl\<rparr>, [''No filtering''], None)"
    using filter_cells_atac_dense(1) [OF assms, of None None None None None None co]
      filter_cells_atac_dense(2) [OF assms, of co]
      obs_filter_noop [of "''n_peaks''" "''pct_peaks''" ad co]
    by auto
  show "\<exists>tbl. filter_genes ad None None None None None None co =
            (ad\<lparr>var := tbl\<rparr>, [''No filtering''], None)"
    using filter_genes_dense(1) [OF assms, of None None None None None None co]
      filter_genes_dense(2) [OF assms, of co]
      var_filter_noop [of "''n_cells''" "''pct_cells''" ad co]
    by auto
  show "\<exists>tbl. filter_peaks ad None None None None None None co =
            (ad\<lparr>var := tbl\<rparr>, [''No filtering''], None)"
    using filter_peaks_dense(1) [OF assms, of None None None None None None co]
      filter_peaks_dense(2) [OF assms, of co]
      var_filter_noop [of "''n_cells''" "''pct_cells''" ad co]
    by auto
  show "\<exists>tbl. filter_features ad None None None None None None co =
            (ad\<lparr>var := tbl\<rparr>, [''No filtering''], None)"
    using filter_features_dense(1) [OF assms, of None None None None None None co]
      filter_features_dense(2) [OF assms, of co]
      var_filter_noop [of "''n_samples''" "''pct_samples''" ad co]
    by auto
qed

lemma filter_samples_twice:
  assumes wf: "wf_adata ad" and dense: "\<not> issparse ad"
  shows "same_matrix (fst (filter_samples (fst (filter_samples ad a b c d e f co)) a b c d e f co))
           (fst (filter_samples ad a b c d e f co)) \<and>
         snd (snd (filter_samples ad a b c d e f co)) = None \<and>
         snd (snd (filter_samples (fst (filter_samples ad a b c d e f co)) a b c d e f co)) = None"
proof -
  let ?r = "obs_filter ''n_features'' ''pct_features'' ad a b c d e f co"
  have first: "filter_samples ad a b c d e f co =
      (?r, fst (snd (filter_samples ad a b c d e f co)), None)"
    by (rule filter_samples_dense(1) [OF dense])
  have r: "fst (filter_samples ad a b c d e f co) = ?r"
    by (subst first) simp
  have "\<not> issparse ?r"
    using dense by (simp add: issparse_obs_filter)
  then have second: "filter_samples ?r a b c d e f co =
      (obs_filter ''n_features'' ''pct_features'' ?r a b c d e f co,
       fst (snd (filter_samples ?r a b c d e f co)), None)"
    by (rule filter_samples_dense(1))
  have e1: "snd (snd (filter_samples ad a b c d e f co)) = None"
    by (subst first) simp
  have e2: "snd (snd (filter_samples ?r a b c d e f co)) = None"
    by (subst second) simp
  have f2: "fst (filter_samples ?r a b c d e f co) = obs_filter ''n_features'' ''pct_features'' ?r a b c d e f co"
    by (subst second) simp
  show ?thesis
    unfolding r same_matrix_def f2
    using obs_filter_idem [OF wf refl, of "''n_features''" "''pct_features''" a b c d e f co] e1 e2
    by (simp add: r)
qed

lemma filter_cells_rna_twice:
  assumes wf: "wf_adata ad" and dense: "\<not> issparse ad"
  shows "same_matrix (fst (filter_cells_rna (fst (filter_cells_rna ad a b c d e f co)) a b c d e f co))
           (fst (filter_cells_rna ad a b c d e f co)) \<and>
         snd (snd (filter_cells_rna ad a b c d e f co)) = None \<and>
         snd (snd (filter_cells_rna (fst (filter_cells_rna ad a b c d e f co)) a b c d e f co)) = None"
proof -
  let ?r = "obs_filter ''n_genes'' ''pct_genes'' ad a b c d e f co"
  have first: "filter_cells_rna ad a b c d e f co =
      (?r, fst (snd (filter_cells_rna ad a b c d e f co)), None)"
    by (rule filter_cells_rna_dense(1) [OF dense])
  have r: "fst (filter_cells_rna ad a b c d e f co) = ?r"
    by (subst first) simp
  have "\<not> issparse ?r"
    using dense by (simp add: issparse_obs_filter)
  then have second: "filter_cells_rna ?r a b c d e f co =
      (obs_filter ''n_genes'' ''pct_genes'' ?r a b c d e f co,
       fst (snd (filter_cells_rna ?r a b c d e f co)), None)"
    by (rule filter_cells_rna_dense(1))
  have e1: "snd (snd (filter_cells_rna ad a b c d e f co)) = None"
    by (subst first) simp
  have e2: "snd (snd (filter_cells_rna ?r a b c d e f co)) = None"
    by (subst second) simp
  have f2: "fst (filter_cells_rna ?r a b c d e f co) = obs_filter ''n_genes'' ''pct_genes'' ?r a b c d e f co"
    by (subst second) simp
  show ?thesis
    unfolding r same_matrix_def f2
    using obs_filter_idem [OF wf refl, of "''n_genes''" "''pct_genes''" a b c d e f co] e1 e2
    by (simp add: r)
qed

lemma filter_cells_atac_twice:
  assumes wf: "wf_adata ad" and dense: "\<not> issparse ad"
  shows "same_matrix (fst (filter_cells_atac (fst (filter_cells_atac ad a b c d e f co)) a b c d e f co))
           (fst (filter_cells_atac ad a b c d e f co)) \<and>
         snd (snd (filter_cells_atac ad a b c d e f co)) = None \<and>
         snd (snd (filter_cells_atac (fst (filter_cells_atac ad a b c d e f co)) a b c d e f co)) = None"
proof -
  let ?r = "obs_filter ''n_peaks'' ''pct_peaks'' ad a b c d e f co"
  have first: "filter_cells_atac ad a b c d e f co =
      (?r, fst (snd (filter_cells_atac ad a b c d e f co)), None)"
    by (rule filter_cells_atac_dense(1) [OF dense])
  have r: "fst (filter_cells_atac ad a b c d e f co) = ?r"
    by (subst first) simp
  have "\<not> issparse ?r"
    using dense by (simp add: issparse_obs_filter)
  then have second: "filter_cells_atac ?r a b c d e f co =
      (obs_filter ''n_peaks'' ''pct_peaks'' ?r a b c d e f co,
       fst (snd (filter_cells_atac ?r a b c d e f co)), None)"
    by (rule filter_cells_atac_dense(1))
  have e1: "snd (snd (filter_cells_atac ad a b c d e f co)) = None"
    by (subst first) simp
  have e2: "snd (snd (filter_cells_atac ?r a b c d e f co)) = None"
    by (subst second) simp
  have f2: "fst (filter_cells_atac ?r a b c d e f co) = obs_filter ''n_peaks'' ''pct_peaks'' ?r a b c d e f co"
    by (subst second) simp
  show ?thesis
    unfolding r same_matrix_def f2
    using obs_filter_idem [OF wf refl, of "''n_peaks''" "''pct_peaks''" a b c d e f co] e1 e2
    by (simp add: r)
qed

lemma filter_genes_twice:
  assumes wf: "wf_adata ad" and dense: "\<not> issparse ad"
  shows "same_matrix (fst (filter_genes (fst (filter_genes ad a b c d e f co)) a b c d e f co))
           (fst (filter_genes ad a b c d e f co)) \<and>
         snd (snd (filter_genes ad a b c d e f co)) = None \<and>
         snd (snd (filter_genes (fst (filter_genes ad a b c d e f co)) a b c d e f co)) = None"
proof -
  let ?r = "var_filter ''n_cells'' ''pct_cells'' ad a b c d e f co"
  have first: "filter_genes ad a b c d e f co =
      (?r, fst (snd (filter_genes ad a b c d e f co)), None)"
    by (rule filter_genes_dense(1) [OF dense])
  have r: "fst (filter_genes ad a b c d e f co) = ?r"
    by (subst first) simp
  have "\<not> issparse ?r"
    using dense by (simp add: issparse_var_filter)
  then have second: "filter_genes ?r a b c d e f co =
      (var_filter ''n_cells'' ''pct_cells'' ?r a b c d e f co,
       fst (snd (filter_genes ?r a b c d e f co)), None)"
    by (rule filter_genes_dense(1))
  have e1: "snd (snd (filter_genes ad a b c d e f co)) = None"
    by (subst first) simp
  have e2: "snd (snd (filter_genes ?r a b c d e f co)) = None"
    by (subst second) simp
  have f2: "fst (filter_genes ?r a b c d e f co) = var_filter ''n_cells'' ''pct_cells'' ?r a b c d e f co"
    by (subst second) simp
  show ?thesis
    unfolding r same_matrix_def f2
    using var_filter_idem [OF wf refl, of "''n_cells''" "''pct_cells''" a b c d e f co] e1 e2
    by (simp add: r)
qed

lemma filter_peaks_twice:
  assumes wf: "wf_adata ad" and dense: "\<not> issparse ad"
  shows "same_matrix (fst (filter_peaks (fst (filter_peaks ad a b c d e f co)) a b c d e f co))
           (fst (filter_peaks ad a b c d e f co)) \<and>
         snd (snd (filter_peaks ad a b c d e f co)) = None \<and>
         snd (snd (filter_peaks (fst (filter_peaks ad a b c d e f co)) a b c d e f co)) = None"
proof -
  let ?r = "var_filter ''n_cells'' ''pct_cells'' ad a b c d e f co"
  have first: "filter_peaks ad a b c d e f co =
      (?r, fst (snd (filter_peaks ad a b c d e f co)), None)"
    by (rule filter_peaks_dense(1) [OF dense])
  have r: "fst (filter_peaks ad a b c d e f co) = ?r"
    by (subst first) simp
  have "\<not> issparse ?r"
    using dense by (simp add: issparse_var_filter)
  then have second: "filter_peaks ?r a b c d e f co =
      (var_filter ''n_cells'' ''pct_cells'' ?r a b c d e f co,
       fst (snd (filter_peaks ?r a b c d e f co)), None)"
    by (rule filter_peaks_dense(1))
  have e1: "snd (snd (filter_peaks ad a b c d e f co)) = None"
    by (subst first) simp
  have e2: "snd (snd (filter_peaks ?r a b c d e f co)) = None"
    by (subst second) simp
  have f2: "fst (filter_peaks ?r a b c d e f co) = var_filter ''n_cells'' ''pct_cells'' ?r a b c d e f co"
    by (subst second) simp
  show ?thesis
    unfolding r same_matrix_def f2
    using var_filter_idem [OF wf refl, of "''n_cells''" "''pct_cells''" a b c d e f co] e1 e2
    by (simp add: r)
qed

lemma filter_features_twice:
  assumes wf: "wf_adata ad" and dense: "\<not> issparse ad"
  shows "same_matrix (fst (filter_features (fst (filter_features ad a b c d e f co)) a b c d e f co))
           (fst (filter_features ad a b c d e f co)) \<and>
         snd (snd (filter_features ad a b c d e f co)) = None \<and>
         snd (snd (filter_features (fst (filter_features ad a b c d e f co)) a b c d e f co)) = None"
proof -
  let ?r = "var_filter ''n_samples'' ''pct_samples'' ad a b c d e f co"
  have first: "filter_features ad a b c d e f co =
      (?r, fst (snd (filter_features ad a b c d e f co)), None)"
    by (rule filter_features_dense(1) [OF dense])
  have r: "fst (filter_features ad a b c d e f co) = ?r"
    by (subst first) simp
  have "\<not> issparse ?r"
    using dense by (simp add: issparse_var_filter)
  then have second: "filter_features ?r a b c d e f co =
      (var_filter ''n_samples'' ''pct_samples'' ?r a b c d e f co,
       fst (snd (filter_features ?r a b c d e f co)), None)"
    by (rule filter_features_dense(1))
  have e1: "snd (snd (filter_features ad a b c d e f co)) = None"
    by (subst first) simp
  have e2: "snd (snd (filter_features ?r a b c d e f co)) = None"
    by (subst second) simp
  have f2: "fst (filter_features ?r a b c d e f co) = var_filter ''n_samples'' ''pct_samples'' ?r a b c d e f co"
    by (subst second) simp
  show ?thesis
    unfolding r same_matrix_def f2
    using var_filter_idem [OF wf refl, of "''n_samples''" "''pct_samples''" a b c d e f co] e1 e2
    by (simp add: r)
qed

text \<open>
  On an \<open>ndarray\<close>, calling the same filter a second time with the same thresholds
  removes nothing and raises nothing: the matrix and both name indexes after the second
  call are those after the first.
\<close>

lemma dense_filter_twice:
  assumes "wf_adata ad" and "\<not> issparse ad"
  shows
    "same_matrix (fst (filter_samples (fst (filter_samples ad a b c d e f co)) a b c d e f co))
       (fst (filter_samples ad a b c d e f co)) \<and>
     same_matrix (fst (filter_cells_rna (fst (filter_cells_rna ad a b c d e f co)) a b c d e f co))
       (fst (filter_cells_rna ad a b c d e f co)) \<and>
     same_matrix (fst (filter_cells_atac (fst (filter_cells_atac ad a b c d e f co)) a b c d e f co))
       (fst (filter_cells_atac ad a b c d e f co)) \<and>
     same_matrix (fst (filter_genes (fst (filter_genes ad a b c d e f co)) a b c d e f co))
       (fst (filter_genes ad a b c d e f co)) \<and>
     same_matrix (fst (filter_peaks (fst (filter_peaks ad a b c d e f co)) a b c d e f co))
       (fst (filter_peaks ad a b c d e f co)) \<and>
     same_matrix (fst (filter_features (fst (filter_features ad a b c d e f co)) a b c d e f co))
       (fst (filter_features ad a b c d e f co))"
  using filter_samples_twice [OF assms, of a b c d e f co]
    filter_cells_rna_twice [OF assms, of a b c d e f co]
    filter_cells_atac_twice [OF assms, of a b c d e f co]
    filter_genes_twice [OF assms, of a b c d e f co]
    filter_peaks_twice [OF assms, of a b c d e f co]
    filter_features_twice [OF assms, of a b c d e f co]
  by simp

text \<open>
  The example of the specification's property P8 on an \<open>ndarray\<close>: the first call
  leaves 7 of the 10 samples, and the second call leaves the same 7.
\<close>

lemma dense_example_twice:
  "length (X filter_example) = 10 \<and>
   length (X (fst (filter_samples filter_example (Some 1) None None None (Some 5) None 1))) = 7 \<and>
   same_matrix
     (fst (filter_samples
        (fst (filter_samples filter_example (Some 1) None None None (Some 5) None 1))
        (Some 1) None None None (Some 5) None 1))
     (fst (filter_samples filter_example (Some 1) None None None (Some 5) None 1))"
proof -
  have dense: "\<not> issparse filter_example"
    by (simp add: filter_example_def)
  have r: "fst (filter_samples filter_example (Some 1) None None None (Some 5) None 1) =
      obs_filter ''n_features'' ''pct_features'' filter_example (Some 1) None None None
        (Some 5) None 1"
    by (subst filter_samples_dense(1) [OF dense]) simp
  have "X (obs_filter ''n_features'' ''pct_features'' filter_example (Some 1) None None None
        (Some 5) None 1) =
     [[5, 1, 0, 2, 0], [3, 3, 1, 0, 0], [0, 0, 4, 4, 1], [2, 2, 2, 2, 2], [0, 6, 0, 0, 0],
      [1, 1, 1, 1, 1], [9, 0, 0, 0, 1]]"
    by (simp add: obs_filter_def obs_column_def filter_example_def Let_def subset_mask_def
        apply_threshold_def inplace_subset_obs_def int_col_def count_col_def col_div_def
        row_sums_def row_counts_def ge_mask_def le_mask_def as_num_def vand_def shape1_def
        fl_div_def)
  with r have seven:
    "length (X (fst (filter_samples filter_example (Some 1) None None None (Some 5) None 1))) = 7"
    by simp
  from filter_samples_twice [OF wf_filter_example dense, of "Some 1" None None None "Some 5" None 1]
    seven show ?thesis
    by (simp add: filter_example_def)
qed

subsection \<open>The filters on a csr_matrix\<close>

lemma var_value_cached: "var ad key = Some c \<Longrightarrow> var_value ad key computed = (ad, Inr (Series c))"
  by (simp add: var_value_def)

lemma var_value_sparse:
  assumes "issparse ad" "var ad key = None" "shape1 ad \<noteq> 1"
  shows "var_value ad key (Inr (np_sum ad c)) = (ad, Inl ValueError)"
    and "co \<noteq> 0 \<Longrightarrow> var_value ad key (np_sum_ge ad co c) = (ad, Inl ValueError)"
  using assms by (simp_all add: var_value_def np_sum_def np_sum_ge_def)

lemma cal_qc_var:
  "var (cal_qc ad c) =
     (var ad)(''n_counts'' \<mapsto> num_col (col_sums (shape1 ad) (X ad)),
              ''n_samples'' \<mapsto> count_col (col_counts c (shape1 ad) (X ad)),
              ''pct_samples'' \<mapsto> NumCol (pct (col_counts c (shape1 ad) (X ad)) (shape0 ad)))"
  by (simp add: cal_qc_def Let_def shape0_def shape1_def)

lemma cal_qc_storage: "issparse (cal_qc ad c)" "var_names (cal_qc ad c) = var_names ad"
  by (simp_all add: cal_qc_def Let_def)

lemma filter_samples_sparse_first:
  "filter_samples sparse_example (Some 1) None None None (Some 3) None 1 =
     (sparse_example\<lparr>obs := [''n_counts'' \<mapsto> NumCol [Fin 2, Fin 4, Fin 4],
                              ''n_features'' \<mapsto> NumCol [Fin 1, Fin 2, Fin 1],
                              ''pct_features'' \<mapsto> NumCol [Fin (1 / 3), Fin (2 / 3), Fin (1 / 3)]]\<rparr>,
      [''filter samples based on min_n_features'', ''filter samples based on min_n_counts''],
      Some IndexError)"
  by (simp add: filter_samples_def sparse_example_def qc_example_def obs_value_def np_sum_def
      np_sum_ge_def divided_def ge_test_def le_test_def threshold_def subset_obs_def
      int_col_def count_col_def col_div_def row_sums_def row_counts_def ge_mask_def
      le_mask_def as_num_def vand_def shape1_def shape0_def fl_div_def Let_def)

lemma filter_samples_sparse_second:
  "filter_samples
     (sparse_example\<lparr>obs := [''n_counts'' \<mapsto> NumCol [Fin 2, Fin 4, Fin 4],
                              ''n_features'' \<mapsto> NumCol [Fin 1, Fin 2, Fin 1],
                              ''pct_features'' \<mapsto> NumCol [Fin (1 / 3), Fin (2 / 3), Fin (1 / 3)]]\<rparr>)
     (Some 1) None None None (Some 3) None 1 =
     (sparse_example\<lparr>X := [[1, 0, 3], [4, 0, 0]], obs_names := [''s1'', ''s2''],
        obs := [''n_counts'' \<mapsto> NumCol [Fin 4, Fin 4],
                ''n_features'' \<mapsto> NumCol [Fin 2, Fin 1],
                ''pct_features'' \<mapsto> NumCol [Fin (2 / 3), Fin (1 / 3)]]\<rparr>,
      [''filter samples based on min_n_features'', ''filter samples based on min_n_counts'',
       ''after filtering out low-quality samples: '', ''2 samples, 3 feature''],
      None)"
  by (simp add: filter_samples_def sparse_example_def qc_example_def obs_value_def
      ge_test_def le_test_def threshold_def subset_obs_def inplace_subset_obs_def
      index_column_def bool_index_def ge_mask_def le_mask_def as_num_def vand_def
      shape1_def shape0_def Let_def show_nat.simps char_of_def bit_iff_odd fun_eq_iff)

text \<open>
  Claim C5.  Calling the same filter a second time with the same thresholds removes
  nothing.  On \<open>sparse_example\<close>, the 3 x 3 matrix stored as a \<open>csr_matrix\<close> with no
  cached column, \<open>filter_samples(adata, min_n_counts=3)\<close> stores the three columns,
  builds its subset from matrices of one column and raises \<open>IndexError\<close> at
  \<open>_inplace_subset_obs\<close>, the three samples still there.  The second call finds the
  columns in the table, raises nothing and removes the sample \<open>s0\<close>.
\<close>

theorem filter_samples_twice_on_sparse:
  "snd (snd (filter_samples sparse_example (Some 1) None None None (Some 3) None 1)) =
     Some IndexError \<and>
   obs_names (fst (filter_samples sparse_example (Some 1) None None None (Some 3) None 1)) =
     [''s0'', ''s1'', ''s2''] \<and>
   X (fst (filter_samples sparse_example (Some 1) None None None (Some 3) None 1)) =
     [[0, 2, 0], [1, 0, 3], [4, 0, 0]] \<and>
   obs (fst (filter_samples sparse_example (Some 1) None None None (Some 3) None 1))
     ''n_counts'' = Some (NumCol [Fin 2, Fin 4, Fin 4]) \<and>
   snd (snd (filter_samples
     (fst (filter_samples sparse_example (Some 1) None None None (Some 3) None 1))
     (Some 1) None None None (Some 3) None 1)) = None \<and>
   obs_names (fst (filter_samples
     (fst (filter_samples sparse_example (Some 1) None None None (Some 3) None 1))
     (Some 1) None None None (Some 3) None 1)) = [''s1'', ''s2''] \<and>
   X (fst (filter_samples
     (fst (filter_samples sparse_example (Some 1) None None None (Some 3) None 1))
     (Some 1) None None None (Some 3) None 1)) = [[1, 0, 3], [4, 0, 0]]"
  unfolding filter_samples_sparse_first fst_conv snd_conv filter_samples_sparse_second
  by (simp add: sparse_example_def qc_example_def)

text \<open>
  Claim C8.  With all six thresholds \<open>None\<close> a filter prints \<open>No filtering\<close>, raises
  nothing and leaves the matrix untouched.  On the container that \<open>cal_qc\<close> leaves,
  whose matrix is a \<open>csr_matrix\<close> and whose table \<open>var\<close> has no column \<open>n_cells\<close>,
  \<open>filter_genes\<close> and \<open>filter_peaks\<close> with six \<open>None\<close>s raise \<open>ValueError\<close> when they
  store the column, before the test of the thresholds: nothing is printed.  So does
  \<open>filter_features\<close> on \<open>sparse_example\<close>, at the column \<open>n_counts\<close>.
\<close>

theorem feature_filters_raise_on_sparse:
  "filter_genes (cal_qc qc_example 1) None None None None None None 1 =
     (cal_qc qc_example 1, [], Some ValueError) \<and>
   filter_peaks (cal_qc qc_example 1) None None None None None None 1 =
     (cal_qc qc_example 1, [], Some ValueError) \<and>
   filter_features sparse_example None None None None None None 1 =
     (sparse_example, [], Some ValueError)"
proof -
  let ?q = "cal_qc qc_example 1"
  have counts: "var ?q ''n_counts'' = Some (num_col (col_sums (shape1 qc_example) (X qc_example)))"
    by (simp add: cal_qc_var)
  have cells: "var ?q ''n_cells'' = None"
    by (simp add: cal_qc_var qc_example_def)
  have width: "shape1 ?q \<noteq> 1"
    by (simp add: shape1_def cal_qc_storage qc_example_def)
  note second = var_value_sparse(2) [OF cal_qc_storage(1) cells width, of 1]
  have genes: "filter_genes ?q None None None None None None 1 = (?q, [], Some ValueError)"
    unfolding filter_genes_def var_value_cached [OF counts] prod.case sum.case
    by (simp add: second)
  have peaks: "filter_peaks ?q None None None None None None 1 = (?q, [], Some ValueError)"
    unfolding filter_peaks_def var_value_cached [OF counts] prod.case sum.case
    by (simp add: second)
  have "issparse sparse_example" "var sparse_example ''n_counts'' = None"
    "shape1 sparse_example \<noteq> 1"
    by (simp_all add: sparse_example_def qc_example_def shape1_def)
  note first = var_value_sparse(1) [OF this]
  have features: "filter_features sparse_example None None None None None None 1 =
      (sparse_example, [], Some ValueError)"
    unfolding filter_features_def first prod.case sum.case
    by simp
  from genes peaks features show ?thesis by simp
qed

lemma obs_value_stores:
  "\<exists>tbl w. obs_value ad key (Inr v) = (ad\<lparr>obs := tbl\<rparr>, Inr w)"
proof (cases "obs ad key")
  case None
  then have "obs_value ad key (Inr v) = (ad\<lparr>obs := (obs ad)(key \<mapsto> entries v)\<rparr>, Inr v)"
    by (simp add: obs_value_def)
  then show ?thesis by blast
next
  case (Some c)
  then have "obs_value ad key (Inr v) = (ad\<lparr>obs := obs ad\<rparr>, Inr (Series c))"
    by (simp add: obs_value_def)
  then show ?thesis by blast
qed

lemma np_sum_ge_nonzero: "co \<noteq> 0 \<Longrightarrow> np_sum_ge ad co c = Inr (np_sum ad c)"
  by (simp add: np_sum_ge_def)

lemma filter_samples_no_thresholds:
  assumes "co \<noteq> 0"
  shows "\<exists>tbl. filter_samples ad None None None None None None co =
           (ad\<lparr>obs := tbl\<rparr>, [''No filtering''], None)"
proof -
  obtain t1 v1 where 1:
    "obs_value ad ''n_counts'' (Inr (np_sum ad (int_col (row_sums (X ad))))) =
       (ad\<lparr>obs := t1\<rparr>, Inr v1)"
    using obs_value_stores by blast
  let ?a1 = "ad\<lparr>obs := t1\<rparr>"
  obtain t2 v2 where 2:
    "obs_value ?a1 ''n_features'' (np_sum_ge ?a1 co (count_col (row_counts co (X ?a1)))) =
       (?a1\<lparr>obs := t2\<rparr>, Inr v2)"
    unfolding np_sum_ge_nonzero [OF assms] using obs_value_stores by blast
  let ?a2 = "?a1\<lparr>obs := t2\<rparr>"
  obtain t3 v3 where 3:
    "obs_value ?a2 ''pct_features'' (Inr (divided v2 (shape1 ?a2))) = (?a2\<lparr>obs := t3\<rparr>, Inr v3)"
    using obs_value_stores by blast
  have "filter_samples ad None None None None None None co =
          (ad\<lparr>obs := t3\<rparr>, [''No filtering''], None)"
    unfolding filter_samples_def 1 prod.case sum.case 2 3
    by simp
  then show ?thesis by blast
qed

lemma filter_cells_rna_no_thresholds:
  assumes "co \<noteq> 0"
  shows "\<exists>tbl. filter_cells_rna ad None None None None None None co =
           (ad\<lparr>obs := tbl\<rparr>, [''No filtering''], None)"
proof -
  obtain t1 v1 where 1:
    "obs_value ad ''n_counts'' (Inr (np_sum ad (int_col (row_sums (X ad))))) =
       (ad\<lparr>obs := t1\<rparr>, Inr v1)"
    using obs_value_stores by blast
  let ?a1 = "ad\<lparr>obs := t1\<rparr>"
  obtain t2 v2 where 2:
    "obs_value ?a1 ''n_genes'' (np_sum_ge ?a1 co (count_col (row_counts co (X ?a1)))) =
       (?a1\<lparr>obs := t2\<rparr>, Inr v2)"
    unfolding np_sum_ge_nonzero [OF assms] using obs_value_stores by blast
  let ?a2 = "?a1\<lparr>obs := t2\<rparr>"
  obtain t3 v3 where 3:
    "obs_value ?a2 ''pct_genes'' (Inr (divided v2 (shape1 ?a2))) = (?a2\<lparr>obs := t3\<rparr>, Inr v3)"
    using obs_value_stores by blast
  have "filter_cells_rna ad None None None None None None co =
          (ad\<lparr>obs := t3\<rparr>, [''No filtering''], None)"
    unfolding filter_cells_rna_def 1 prod.case sum.case 2 3
    by simp
  then show ?thesis by blast
qed

lemma filter_cells_atac_no_thresholds:
  assumes "co \<noteq> 0"
  shows "\<exists>tbl. filter_cells_atac ad None None None None None None co =
           (ad\<lparr>obs := tbl\<rparr>, [''No filtering''], None)"
proof -
  obtain t1 v1 where 1:
    "obs_value ad ''n_counts'' (Inr (np_sum ad (int_col (row_sums (X ad))))) =
       (ad\<lparr>obs := t1\<rparr>, Inr v1)"
    using obs_value_stores by blast
  let ?a1 = "ad\<lparr>obs := t1\<rparr>"
  obtain t2 v2 where 2:
    "obs_value ?a1 ''n_peaks'' (np_sum_ge ?a1 co (count_col (row_counts co (X ?a1)))) =
       (?a1\<lparr>obs := t2\<rparr>, Inr v2)"
    unfolding np_sum_ge_nonzero [OF assms] using obs_value_stores by blast
  let ?a2 = "?a1\<lparr>obs := t2\<rparr>"
  obtain t3 v3 where 3:
    "obs_value ?a2 ''pct_peaks'' (Inr (divided v2 (shape1 ?a2))) = (?a2\<lparr>obs := t3\<rparr>, Inr v3)"
    using obs_value_stores by blast
  have "filter_cells_atac ad None None None None None None co =
          (ad\<lparr>obs := t3\<rparr>, [''No filtering''], None)"
    unfolding filter_cells_atac_def 1 prod.case sum.case 2 3
    by simp
  then show ?thesis by blast
qed

text \<open>
  The three filters of samples, with all six thresholds \<open>None\<close> and a cutoff other than
  0, print \<open>No filtering\<close> and raise nothing on either storage.
\<close>

lemma sample_filters_without_thresholds:
  assumes "co \<noteq> 0"
  shows
  "(\<exists>tbl. filter_samples ad None None None None None None co =
            (ad\<lparr>obs := tbl\<rparr>, [''No filtering''], None)) \<and>
   (\<exists>tbl. filter_cells_rna ad None None None None None None co =
            (ad\<lparr>obs := tbl\<rparr>, [''No filtering''], None)) \<and>
   (\<exists>tbl. filter_cells_atac ad None None None None None None co =
            (ad\<lparr>obs := tbl\<rparr>, [''No filtering''], None))"
  by (intro conjI filter_samples_no_thresholds filter_cells_rna_no_thresholds
      filter_cells_atac_no_thresholds assms)

text \<open>
  The three filters of features raise \<open>ValueError\<close> at their first statement, whatever
  the thresholds, on a \<open>csr_matrix\<close> whose table \<open>var\<close> has no column \<open>n_counts\<close>, unless
  there is exactly one feature.
\<close>

lemma feature_filters_sparse_uncached:
  assumes "issparse ad" "var ad ''n_counts'' = None" "shape1 ad \<noteq> 1"
  shows "filter_genes ad a b c d e f co = (ad, [], Some ValueError)"
    and "filter_peaks ad a b c d e f co = (ad, [], Some ValueError)"
    and "filter_features ad a b c d e f co = (ad, [], Some ValueError)"
  unfolding filter_genes_def filter_peaks_def filter_features_def
    var_value_sparse(1) [OF assms] prod.case sum.case
  by simp_all

subsection \<open>Selecting components and features\<close>

text \<open>
  The loop changes the container in \<open>uns['pca']\<close> only, passes the same \<open>min_elbow\<close> in
  every call, and, when nothing is raised, has collected the lists of its components in
  order.
\<close>

lemma features_loop_frame:
  "features_loop le pcs nf S me kw comps (ad, calls, ids) = ((ad', calls', ids'), err) \<Longrightarrow>
   \<exists>u. ad' = ad\<lparr>uns_pca := u\<rparr>"
proof (induction comps arbitrary: ad calls ids)
  case Nil
  then have "ad' = ad\<lparr>uns_pca := uns_pca ad\<rparr>" by simp
  then show ?case by blast
next
  case (Cons i comps)
  show ?case
  proof (cases "ncols pcs \<le> i")
    case True
    with Cons.prems have "ad' = ad\<lparr>uns_pca := uns_pca ad\<rparr>" by simp
    then show ?thesis by blast
  next
    case False
    show ?thesis
    proof (cases "le (feature_call pcs nf S me kw i)")
      case (Inl e)
      with False Cons.prems have "ad' = ad\<lparr>uns_pca := uns_pca ad\<rparr>" by simp
      then show ?thesis by blast
    next
      case (Inr elbow)
      with False Cons.prems have
        "features_loop le pcs nf S me kw comps
           (record_features ad (''pc_'' @ show_nat i)
              (py_slice_to elbow (ranking (loading_column pcs i))),
            calls @ [feature_call pcs nf S me kw i],
            ids @ py_slice_to elbow (ranking (loading_column pcs i))) =
         ((ad', calls', ids'), err)"
        by (simp add: Let_def)
      from Cons.IH [OF this] obtain u where
        "ad' = (record_features ad (''pc_'' @ show_nat i)
                  (py_slice_to elbow (ranking (loading_column pcs i))))\<lparr>uns_pca := u\<rparr>"
        by blast
      then have "ad' = ad\<lparr>uns_pca := u\<rparr>" by (simp add: record_features_def)
      then show ?thesis by blast
    qed
  qed
qed

lemma features_loop_calls:
  "features_loop le pcs nf S me kw comps (ad, calls, ids) = ((ad', calls', ids'), err) \<Longrightarrow>
   c \<in> set calls' \<Longrightarrow> c \<in> set calls \<or> ec_min_elbow c = me"
proof (induction comps arbitrary: ad calls ids)
  case Nil
  then show ?case by simp
next
  case (Cons i comps)
  show ?case
  proof (cases "ncols pcs \<le> i")
    case True
    with Cons.prems show ?thesis by simp
  next
    case False
    show ?thesis
    proof (cases "le (feature_call pcs nf S me kw i)")
      case (Inl e)
      with False Cons.prems show ?thesis by (auto simp: feature_call_def)
    next
      case (Inr elbow)
      with False Cons.prems have
        "features_loop le pcs nf S me kw comps
           (record_features ad (''pc_'' @ show_nat i)
              (py_slice_to elbow (ranking (loading_column pcs i))),
            calls @ [feature_call pcs nf S me kw i],
            ids @ py_slice_to elbow (ranking (loading_column pcs i))) =
         ((ad', calls', ids'), err)"
        by (simp add: Let_def)
      from Cons.IH [OF this Cons.prems(2)] show ?thesis
        by (auto simp: feature_call_def)
    qed
  qed
qed

lemma features_loop_ok:
  "features_loop le pcs nf S me kw comps (ad, calls, ids) = ((ad', calls', ids'), None) \<Longrightarrow>
   ids' = ids @ concat (map (component_ids le pcs nf S me kw) comps) \<and>
   calls' = calls @ map (feature_call pcs nf S me kw) comps"
proof (induction comps arbitrary: ad calls ids)
  case Nil
  then show ?case by simp
next
  case (Cons i comps)
  show ?case
  proof (cases "ncols pcs \<le> i")
    case True
    with Cons.prems show ?thesis by simp
  next
    case False
    show ?thesis
    proof (cases "le (feature_call pcs nf S me kw i)")
      case (Inl e)
      with False Cons.prems show ?thesis by simp
    next
      case (Inr elbow)
      with False Cons.prems have
        "features_loop le pcs nf S me kw comps
           (record_features ad (''pc_'' @ show_nat i)
              (py_slice_to elbow (ranking (loading_column pcs i))),
            calls @ [feature_call pcs nf S me kw i],
            ids @ py_slice_to elbow (ranking (loading_column pcs i))) =
         ((ad', calls', ids'), None)"
        by (simp add: Let_def)
      from Cons.IH [OF this] Inr show ?thesis
        by (simp add: component_ids_def)
    qed
  qed
qed

lemma features_loop_runs:
  "\<forall>i \<in> set comps. i < ncols pcs \<and> (\<exists>e. le (feature_call pcs nf S me kw i) = Inr e) \<Longrightarrow>
   \<exists>ad' calls' ids'. features_loop le pcs nf S me kw comps (ad, calls, ids) =
      ((ad', calls', ids'), None)"
proof (induction comps arbitrary: ad calls ids)
  case Nil
  then show ?case by simp
next
  case (Cons i comps)
  then obtain e where e: "le (feature_call pcs nf S me kw i) = Inr e" and i: "i < ncols pcs"
    by auto
  from Cons.prems have "\<forall>i \<in> set comps. i < ncols pcs \<and>
      (\<exists>e. le (feature_call pcs nf S me kw i) = Inr e)" by simp
  from Cons.IH [OF this] e i show ?case by (simp add: Let_def)
qed

lemma set_argsort: "set (argsort xs) = {0..<length xs}"
proof -
  have m: "map snd (zip xs [0..<length xs]) = [0..<length xs]"
    by (rule map_snd_zip) simp
  have "snd ` set (zip xs [0..<length xs]) = set (map snd (zip xs [0..<length xs]))"
    by (simp only: set_map)
  also have "\<dots> = {0..<length xs}"
    unfolding m by simp
  finally show ?thesis
    by (simp add: argsort_def)
qed

lemma set_ranking: "set (ranking col) = {0..<length col}"
  by (simp add: ranking_def set_argsort)

lemma set_np_unique [simp]: "set (np_unique ids) = set ids"
  by (simp add: np_unique_def)

lemma length_loading_column [simp]: "length (loading_column pcs i) = length (mrows pcs)"
  by (simp add: loading_column_def)

text \<open>
  Once the dictionary keys are present and the stored count is an integer, the function is
  the loop followed by the two statements that write the column.
\<close>

lemma select_pcs_features_unfold:
  assumes "uns_pca ad = Some pca" "n_pcs pca = Some (Some n)" "varm ad ''PCs'' = Some pcs"
    and "features_loop le pcs (length (mrows pcs)) S
           (case min_elbow of None \<Rightarrow> real (length (mrows pcs)) / 10 | Some m \<Rightarrow> m) kw
           [0..<nat n] (ad\<lparr>uns_pca := Some (pca\<lparr>features := Some Map.empty\<rparr>)\<rparr>, [], []) =
         ((ad', calls, ids), err)"
  shows "select_pcs_features le ad S curve direction online min_elbow kw =
     (case err of
        Some e \<Rightarrow> (ad', calls, Some e)
      | None \<Rightarrow> (fst (mark_top_pcs ad' ids), calls, snd (mark_top_pcs ad' ids)))"
  using assms
  by (cases err) (simp_all add: select_pcs_features_def Let_def split: prod.splits)

lemma mark_top_pcs_column:
  "var (fst (mark_top_pcs ad ids)) ''top_pcs'' =
     Some (BoolCol
       (if snd (mark_top_pcs ad ids) = None
        then map (\<lambda>name. name \<in> (\<lambda>i. var_names ad ! i) ` set ids) (var_names ad)
        else replicate (length (var_names ad)) False))"
  by (simp add: mark_top_pcs_def Let_def shape1_def)

lemma mark_top_pcs_error:
  "snd (mark_top_pcs ad ids) =
     (if ids = [] \<or> (\<exists>i \<in> set ids. length (var_names ad) \<le> i) then Some IndexError
      else None)"
  by (simp add: mark_top_pcs_def Let_def)

lemma select_pcs_frame:
  "\<exists>u. fst (select_pcs le ad n_arg S curve direction online min_elbow kw) = ad\<lparr>uns_pca := u\<rparr>"
proof -
  have triv: "\<exists>u. ad = ad\<lparr>uns_pca := u\<rparr>"
    by (rule exI [of _ "uns_pca ad"]) simp
  show ?thesis
    using triv
    by (auto simp: select_pcs_def Let_def split: option.splits sum.splits)
qed

text \<open>
  Claim C4.  For every explicit count \<open>k\<close> given by the caller, \<open>select_pcs\<close> stores
  exactly \<open>k\<close> under \<open>'n_pcs'\<close> (the dictionary \<open>uns['pca']\<close> being there to store it
  in) and makes no call to the elbow locator.  Whatever the argument, explicit or not,
  the container that \<open>select_pcs\<close> leaves differs from the given one in \<open>uns['pca']\<close> at
  most: the matrix, the two name indexes, the layers, the metadata tables and the
  \<open>obsm\<close> and \<open>varm\<close> arrays are the same.
\<close>

theorem select_pcs_explicit_count:
  "(uns_pca ad = Some pca \<longrightarrow>
      select_pcs le ad (Some k) S curve direction online min_elbow kw =
        (ad\<lparr>uns_pca := Some (pca\<lparr>n_pcs := Some (Some k)\<rparr>)\<rparr>, [], None)) \<and>
   fst (snd (select_pcs le ad (Some k) S curve direction online min_elbow kw)) = [] \<and>
   (\<exists>u. fst (select_pcs le ad n_arg S curve direction online min_elbow kw) = ad\<lparr>uns_pca := u\<rparr>)"
  using select_pcs_frame [of le ad n_arg S curve direction online min_elbow kw]
  by (simp add: select_pcs_def split: option.splits)

theorem select_pcs_explicit_count_witness:
  "uns_pca pcs_example = Some example_pca \<and>
   select_pcs top3 pcs_example (Some 1) 1 ''convex'' ''decreasing'' False None () =
     (pcs_example\<lparr>uns_pca := Some (example_pca\<lparr>n_pcs := Some (Some 1)\<rparr>)\<rparr>, [], None)"
  using select_pcs_explicit_count [of pcs_example example_pca top3 1 1 "''convex''"
      "''decreasing''" False None "()" None]
  by (simp add: pcs_example_def)

text \<open>
  Claim C10.  The argument \<open>curve\<close> of \<open>select_pcs\<close> and the arguments \<open>curve\<close> and
  \<open>direction\<close> of \<open>select_pcs_features\<close> have no effect: two runs that differ in these
  arguments only leave the same container (so the same stored count and the same
  selected features), make the same calls to the locator and raise the same exception,
  if any.
\<close>

theorem ignored_arguments:
  "select_pcs le ad n_arg S curve direction online min_elbow kw =
     select_pcs le ad n_arg S curve' direction online min_elbow kw \<and>
   select_pcs_features le ad S curve direction online min_elbow kw =
     select_pcs_features le ad S curve' direction' online min_elbow kw"
  by (simp add: select_pcs_def select_pcs_features_def)

theorem ignored_arguments_witness:
  "select_pcs top3 pcs_example None 1 ''convex'' ''decreasing'' False None () =
     select_pcs top3 pcs_example None 1 ''concave'' ''decreasing'' False None () \<and>
   select_pcs_features top3 pcs_example 1 ''convex'' ''decreasing'' False None () =
     select_pcs_features top3 pcs_example 1 ''concave'' ''increasing'' False None ()"
  by (rule ignored_arguments)

lemma select_pcs_features_calls:
  assumes "varm ad ''PCs'' = Some pcs"
    and "c \<in> set (fst (snd (select_pcs_features le ad S curve direction online None kw)))"
  shows "ec_min_elbow c = real (length (mrows pcs)) / 10"
proof (cases "uns_pca ad")
  case None
  with assms show ?thesis by (simp add: select_pcs_features_def)
next
  case (Some pca)
  show ?thesis
  proof (cases "n_pcs pca")
    case None
    with Some assms show ?thesis by (simp add: select_pcs_features_def)
  next
    case outer: (Some v)
    show ?thesis
    proof (cases v)
      case None
      with Some outer assms show ?thesis by (simp add: select_pcs_features_def)
    next
      case inner: (Some n)
      obtain ad' calls ids err where loop:
        "features_loop le pcs (length (mrows pcs)) S
           (case None of None \<Rightarrow> real (length (mrows pcs)) / 10 | Some m \<Rightarrow> m) kw
           [0..<nat n] (ad\<lparr>uns_pca := Some (pca\<lparr>features := Some Map.empty\<rparr>)\<rparr>, [], []) =
         ((ad', calls, ids), err)"
        by (metis prod.exhaust)
      have "fst (snd (select_pcs_features le ad S curve direction online None kw)) = calls"
        unfolding select_pcs_features_unfold
          [OF Some outer [unfolded inner] assms(1) loop]
        by (cases err) simp_all
      with assms(2) have "c \<in> set calls" by simp
      from features_loop_calls [OF loop this] show ?thesis by simp
    qed
  qed
qed

text \<open>
  Claim C3.  When the caller gives no \<open>min_elbow\<close>, the locator is called with
  \<open>min_elbow\<close> equal to one tenth of the length of the curve, by true division:
  \<open>select_pcs\<close> makes one call, with the number of computed components divided by 10,
  and every call of \<open>select_pcs_features\<close> carries the number of features divided by 10.
\<close>

theorem default_min_elbow:
  "(obsm ad ''X_pca'' = Some x_pca \<and> uns_pca ad = Some pca \<and> variance_ratio pca = Some ratio \<longrightarrow>
      map ec_min_elbow (fst (snd (select_pcs le ad None S curve direction online None kw))) =
        [real (ncols x_pca) / 10]) \<and>
   (varm ad ''PCs'' = Some pcs \<longrightarrow>
      (\<forall>c \<in> set (fst (snd (select_pcs_features le ad S curve direction online None kw))).
         ec_min_elbow c = real (length (mrows pcs)) / 10))"
  using select_pcs_features_calls [of ad pcs _ le S curve direction online kw]
  by (auto simp: select_pcs_def Let_def variance_call_def split: sum.splits)

lemmas selection_eval =
  select_pcs_features_def select_pcs_def pcs_example_def example_pca_def feature_call_def
  variance_call_def mark_top_pcs_def np_unique_def ranking_def argsort_def loading_column_def
  sorted_magnitudes_def py_slice_to_def record_features_def recorded_features_def shape1_def
  upt_conv_Cons Let_def

lemma show_nat_0: "show_nat 0 = ''0''"
  by (simp add: show_nat.simps char_of_def bit_iff_odd)

lemma show_nat_1: "show_nat (Suc 0) = ''1''"
  by (simp add: show_nat.simps char_of_def bit_iff_odd)

theorem default_min_elbow_witness:
  "obsm pcs_example ''X_pca'' = Some \<lparr>ncols = 2, mrows = [[1, 2]]\<rparr> \<and>
   uns_pca pcs_example = Some example_pca \<and>
   variance_ratio example_pca = Some [5 / 6, 1 / 6] \<and>
   map ec_min_elbow
     (fst (snd (select_pcs top3 pcs_example None 1 ''convex'' ''decreasing'' False None ()))) =
     [2 / 10] \<and>
   map ec_min_elbow
     (fst (snd (select_pcs_features top3 pcs_example 1 ''convex'' ''decreasing'' False None ()))) =
     [7 / 10, 7 / 10]"
  using default_min_elbow [of pcs_example "\<lparr>ncols = 2, mrows = [[1, 2]]\<rparr>" example_pca
      "[5 / 6, 1 / 6]" top3 1 "''convex''" "''decreasing''" False "()"]
  by (simp add: selection_eval top3_def)

text \<open>
  Claim C1.  After the loop of \<open>select_pcs_features\<close> the column \<open>top_pcs\<close> is true
  exactly for the features that occur in the list of at least one retained component,
  so that two lists of three with one common feature give five true entries.  The
  source writes the column by feature name.  On \<open>dup_example\<close>, where the features 0
  and 6 are both named \<open>g0\<close>, the two components record the lists \<open>[0,1,2]\<close> and
  \<open>[2,3,4]\<close>, nothing is raised, and the column is true at the five selected features and
  also at feature 6, which is in neither list: six true entries.
\<close>

theorem duplicate_name_flagged:
  "snd (snd (select_pcs_features top3 dup_example 1 ''convex'' ''decreasing'' False None ())) = None \<and>
   recorded_features
     (fst (select_pcs_features top3 dup_example 1 ''convex'' ''decreasing'' False None ()))
     ''pc_0'' = Some [0, 1, 2] \<and>
   recorded_features
     (fst (select_pcs_features top3 dup_example 1 ''convex'' ''decreasing'' False None ()))
     ''pc_1'' = Some [2, 3, 4] \<and>
   var (fst (select_pcs_features top3 dup_example 1 ''convex'' ''decreasing'' False None ()))
     ''top_pcs'' = Some (BoolCol [True, True, True, True, True, False, True])"
  by (simp add: selection_eval dup_example_def top3_def show_nat_0 show_nat_1)

text \<open>On \<open>pcs_example\<close>, whose names are distinct, the same run gives five true entries.\<close>

lemma distinct_names_five:
  "recorded_features
     (fst (select_pcs_features top3 pcs_example 1 ''convex'' ''decreasing'' False None ()))
     ''pc_0'' = Some [0, 1, 2] \<and>
   recorded_features
     (fst (select_pcs_features top3 pcs_example 1 ''convex'' ''decreasing'' False None ()))
     ''pc_1'' = Some [2, 3, 4] \<and>
   var (fst (select_pcs_features top3 pcs_example 1 ''convex'' ''decreasing'' False None ()))
     ''top_pcs'' = Some (BoolCol [True, True, True, True, True, False, False])"
  by (simp add: selection_eval top3_def show_nat_0 show_nat_1)

lemma wf_dup_example: "wf_adata dup_example"
  by (simp add: wf_adata_def dup_example_def pcs_example_def aligned_def shape0_def shape1_def)

lemma component_ids_None:
  "le (feature_call pcs nf S me kw i) = Inr None \<Longrightarrow>
   component_ids le pcs nf S me kw i = ranking (loading_column pcs i)"
  by (simp add: component_ids_def py_slice_to_def)

lemma set_py_slice_to: "set (py_slice_to e xs) \<subseteq> set xs"
  by (auto simp: py_slice_to_def split: option.splits dest: in_set_takeD)

lemma set_component_ids:
  "set (component_ids le pcs nf S me kw i) \<subseteq> {0..<length (mrows pcs)}"
proof (cases "le (feature_call pcs nf S me kw i)")
  case (Inl e)
  then show ?thesis by (simp add: component_ids_def)
next
  case (Inr elbow)
  have "set (py_slice_to elbow (ranking (loading_column pcs i))) \<subseteq>
        set (ranking (loading_column pcs i))"
    by (rule set_py_slice_to)
  with Inr show ?thesis by (simp add: component_ids_def set_ranking)
qed

lemma names_all_indexed:
  "map (\<lambda>name. name \<in> (\<lambda>i. vn ! i) ` {0..<length vn}) vn = replicate (length vn) True"
proof -
  have "(\<lambda>i. vn ! i) ` {0..<length vn} = set vn"
    by (auto simp: set_conv_nth)
  then show ?thesis
    by (simp add: map_replicate_const [symmetric] cong: map_cong)
qed

lemma names_distinct_indexed:
  assumes "distinct vn" "J \<subseteq> {0..<length vn}"
  shows "map (\<lambda>name. name \<in> (\<lambda>i. vn ! i) ` J) vn = map (\<lambda>j. j \<in> J) [0..<length vn]"
proof (rule nth_equalityI)
  show "length (map (\<lambda>name. name \<in> (\<lambda>i. vn ! i) ` J) vn) =
        length (map (\<lambda>j. j \<in> J) [0..<length vn])"
    by simp
next
  fix j assume "j < length (map (\<lambda>name. name \<in> (\<lambda>i. vn ! i) ` J) vn)"
  then have j: "j < length vn" by simp
  have "vn ! j \<in> (\<lambda>i. vn ! i) ` J \<longleftrightarrow> j \<in> J"
  proof
    assume "vn ! j \<in> (\<lambda>i. vn ! i) ` J"
    then obtain i where i: "i \<in> J" "vn ! j = vn ! i" by blast
    with assms(2) have "i < length vn" by auto
    with assms(1) j i(2) have "j = i" by (simp add: nth_eq_iff_index_eq)
    with i(1) show "j \<in> J" by simp
  next
    assume "j \<in> J"
    then show "vn ! j \<in> (\<lambda>i. vn ! i) ` J" by blast
  qed
  with j show "map (\<lambda>name. name \<in> (\<lambda>i. vn ! i) ` J) vn ! j =
               map (\<lambda>j. j \<in> J) [0..<length vn] ! j"
    by simp
qed

text \<open>
  With pairwise distinct feature names the column flags exactly the union of the lists of
  the retained components.
\<close>

lemma top_pcs_union:
  assumes u: "uns_pca ad = Some pca" and n: "n_pcs pca = Some (Some n)"
    and v: "varm ad ''PCs'' = Some pcs"
    and len: "length (mrows pcs) = length (var_names ad)"
    and dist: "distinct (var_names ad)"
    and me: "me = (case min_elbow of None \<Rightarrow> real (length (mrows pcs)) / 10 | Some m \<Rightarrow> m)"
    and runs: "\<forall>i \<in> set [0..<nat n]. i < ncols pcs \<and>
                 (\<exists>e. le (feature_call pcs (length (mrows pcs)) S me kw i) = Inr e)"
    and some: "\<exists>i < nat n. component_ids le pcs (length (mrows pcs)) S me kw i \<noteq> []"
  shows "snd (snd (select_pcs_features le ad S curve direction online min_elbow kw)) = None \<and>
         var (fst (select_pcs_features le ad S curve direction online min_elbow kw)) ''top_pcs'' =
           Some (BoolCol (map (\<lambda>j. \<exists>i < nat n.
                    j \<in> set (component_ids le pcs (length (mrows pcs)) S me kw i))
                  [0..<length (var_names ad)]))"
proof -
  let ?ad0 = "ad\<lparr>uns_pca := Some (pca\<lparr>features := Some Map.empty\<rparr>)\<rparr>"
  let ?cid = "component_ids le pcs (length (mrows pcs)) S me kw"
  from features_loop_runs [OF runs] obtain ad' calls ids where
    loop: "features_loop le pcs (length (mrows pcs)) S me kw [0..<nat n] (?ad0, [], []) =
           ((ad', calls, ids), None)"
    by blast
  from features_loop_frame [OF loop] obtain w where "ad' = ?ad0\<lparr>uns_pca := w\<rparr>" by blast
  then have names: "var_names ad' = var_names ad" by simp
  from features_loop_ok [OF loop] have ids: "ids = concat (map ?cid [0..<nat n])" by simp
  have set_ids: "set ids = {j. \<exists>i < nat n. j \<in> set (?cid i)}"
    unfolding ids by auto
  have bound: "set ids \<subseteq> {0..<length (var_names ad)}"
    unfolding set_ids using set_component_ids [of le pcs "length (mrows pcs)" S me kw] len
    by auto
  from some have nonempty: "ids \<noteq> []"
    unfolding ids by auto
  have res: "select_pcs_features le ad S curve direction online min_elbow kw =
        (fst (mark_top_pcs ad' ids), calls, snd (mark_top_pcs ad' ids))"
    using select_pcs_features_unfold [OF u n v loop [unfolded me]] by simp
  have err: "snd (mark_top_pcs ad' ids) = None"
    using bound nonempty by (auto simp: mark_top_pcs_error names)
  have "map (\<lambda>name. name \<in> (\<lambda>i. var_names ad ! i) ` set ids) (var_names ad) =
        map (\<lambda>j. j \<in> set ids) [0..<length (var_names ad)]"
    by (rule names_distinct_indexed [OF dist bound])
  then have col: "var (fst (mark_top_pcs ad' ids)) ''top_pcs'' =
      Some (BoolCol (map (\<lambda>j. j \<in> set ids) [0..<length (var_names ad)]))"
    by (simp add: mark_top_pcs_column err names)
  show ?thesis
    unfolding res using err col by (simp add: set_ids)
qed

text \<open>
  When the locator returns \<open>None\<close> for every retained component, every feature is
  flagged.
\<close>

lemma select_pcs_features_whole_ranking:
  assumes u: "uns_pca ad = Some pca" and n: "n_pcs pca = Some (Some n)"
    and v: "varm ad ''PCs'' = Some pcs"
    and pos: "0 < n" and cols: "nat n \<le> ncols pcs"
    and len: "length (mrows pcs) = length (var_names ad)"
    and ne: "var_names ad \<noteq> []"
    and me: "me = (case min_elbow of None \<Rightarrow> real (length (mrows pcs)) / 10 | Some m \<Rightarrow> m)"
    and absent: "\<forall>i < nat n. le (feature_call pcs (length (mrows pcs)) S me kw i) = Inr None"
  shows "snd (snd (select_pcs_features le ad S curve direction online min_elbow kw)) = None \<and>
         var (fst (select_pcs_features le ad S curve direction online min_elbow kw)) ''top_pcs'' =
           Some (BoolCol (replicate (length (var_names ad)) True))"
proof -
  let ?ad0 = "ad\<lparr>uns_pca := Some (pca\<lparr>features := Some Map.empty\<rparr>)\<rparr>"
  let ?cid = "component_ids le pcs (length (mrows pcs)) S me kw"
  have runs: "\<forall>i \<in> set [0..<nat n]. i < ncols pcs \<and>
                 (\<exists>e. le (feature_call pcs (length (mrows pcs)) S me kw i) = Inr e)"
    using cols absent by auto
  from features_loop_runs [OF runs] obtain ad' calls ids where
    loop: "features_loop le pcs (length (mrows pcs)) S me kw [0..<nat n] (?ad0, [], []) =
           ((ad', calls, ids), None)"
    by blast
  from features_loop_frame [OF loop] obtain w where "ad' = ?ad0\<lparr>uns_pca := w\<rparr>" by blast
  then have names: "var_names ad' = var_names ad" by simp
  from features_loop_ok [OF loop] have ids: "ids = concat (map ?cid [0..<nat n])" by simp
  have each: "set (?cid i) = {0..<length (var_names ad)}" if "i < nat n" for i
    using absent that by (simp add: component_ids_None set_ranking len)
  from pos have "0 < nat n" by simp
  then have set_ids: "set ids = {0..<length (var_names ad)}"
    unfolding ids using each by auto
  with ne have nonempty: "ids \<noteq> []" by auto
  have res: "select_pcs_features le ad S curve direction online min_elbow kw =
        (fst (mark_top_pcs ad' ids), calls, snd (mark_top_pcs ad' ids))"
    using select_pcs_features_unfold [OF u n v loop [unfolded me]] by simp
  have err: "snd (mark_top_pcs ad' ids) = None"
    using set_ids nonempty by (auto simp: mark_top_pcs_error names)
  have col: "var (fst (mark_top_pcs ad' ids)) ''top_pcs'' =
      Some (BoolCol (replicate (length (var_names ad)) True))"
    by (simp add: mark_top_pcs_column err names set_ids names_all_indexed)
  show ?thesis
    unfolding res using err col by simp
qed

text \<open>
  Claim C2.  The call sites do not branch on an absent elbow.  When the locator returns
  \<open>None\<close> for the variance curve, \<open>select_pcs\<close> stores \<open>None\<close> as the count and raises
  nothing.  With \<open>None\<close> stored as the count, \<open>select_pcs_features\<close> resets the dictionary
  of features and raises \<open>TypeError\<close> before it calls the locator.  With an integer
  count and the locator returning \<open>None\<close> for the loading curve of every retained
  component, \<open>select_pcs_features\<close> raises nothing and the slice truncates nothing: each
  component contributes its whole ranking, and \<open>top_pcs\<close> is true for every feature.
\<close>

theorem absent_elbow_not_branched:
  "(obsm ad ''X_pca'' = Some x_pca \<and> uns_pca ad = Some pca \<and> variance_ratio pca = Some ratio \<and>
    le (variance_call (ncols x_pca) ratio S
          (case min_elbow of None \<Rightarrow> real (ncols x_pca) / 10 | Some m \<Rightarrow> m)
          direction online kw) = Inr None \<longrightarrow>
      fst (select_pcs le ad None S curve direction online min_elbow kw) =
        ad\<lparr>uns_pca := Some (pca\<lparr>n_pcs := Some None\<rparr>)\<rparr> \<and>
      snd (snd (select_pcs le ad None S curve direction online min_elbow kw)) = None) \<and>
   (uns_pca ad = Some pca \<and> n_pcs pca = Some None \<and> varm ad ''PCs'' = Some pcs \<longrightarrow>
      select_pcs_features le ad S curve direction online min_elbow kw =
        (ad\<lparr>uns_pca := Some (pca\<lparr>features := Some Map.empty\<rparr>)\<rparr>, [], Some TypeError)) \<and>
   (uns_pca ad = Some pca \<and> n_pcs pca = Some (Some n) \<and> varm ad ''PCs'' = Some pcs \<and>
    0 < n \<and> nat n \<le> ncols pcs \<and> length (mrows pcs) = length (var_names ad) \<and>
    var_names ad \<noteq> [] \<and>
    (\<forall>i < nat n. le (feature_call pcs (length (mrows pcs)) S
                       (case min_elbow of None \<Rightarrow> real (length (mrows pcs)) / 10 | Some m \<Rightarrow> m)
                       kw i) = Inr None) \<longrightarrow>
      snd (snd (select_pcs_features le ad S curve direction online min_elbow kw)) = None \<and>
      var (fst (select_pcs_features le ad S curve direction online min_elbow kw)) ''top_pcs'' =
        Some (BoolCol (replicate (length (var_names ad)) True)))"
proof (intro conjI impI)
  assume "obsm ad ''X_pca'' = Some x_pca \<and> uns_pca ad = Some pca \<and>
    variance_ratio pca = Some ratio \<and>
    le (variance_call (ncols x_pca) ratio S
          (case min_elbow of None \<Rightarrow> real (ncols x_pca) / 10 | Some m \<Rightarrow> m)
          direction online kw) = Inr None"
  then show "fst (select_pcs le ad None S curve direction online min_elbow kw) =
        ad\<lparr>uns_pca := Some (pca\<lparr>n_pcs := Some None\<rparr>)\<rparr>"
    and "snd (snd (select_pcs le ad None S curve direction online min_elbow kw)) = None"
    by (simp_all add: select_pcs_def Let_def)
next
  assume "uns_pca ad = Some pca \<and> n_pcs pca = Some None \<and> varm ad ''PCs'' = Some pcs"
  then show "select_pcs_features le ad S curve direction online min_elbow kw =
        (ad\<lparr>uns_pca := Some (pca\<lparr>features := Some Map.empty\<rparr>)\<rparr>, [], Some TypeError)"
    by (simp add: select_pcs_features_def Let_def)
next
  assume a: "uns_pca ad = Some pca \<and> n_pcs pca = Some (Some n) \<and> varm ad ''PCs'' = Some pcs \<and>
    0 < n \<and> nat n \<le> ncols pcs \<and> length (mrows pcs) = length (var_names ad) \<and>
    var_names ad \<noteq> [] \<and>
    (\<forall>i < nat n. le (feature_call pcs (length (mrows pcs)) S
                       (case min_elbow of None \<Rightarrow> real (length (mrows pcs)) / 10 | Some m \<Rightarrow> m)
                       kw i) = Inr None)"
  then have "snd (snd (select_pcs_features le ad S curve direction online min_elbow kw)) = None \<and>
      var (fst (select_pcs_features le ad S curve direction online min_elbow kw)) ''top_pcs'' =
        Some (BoolCol (replicate (length (var_names ad)) True))"
    by (intro select_pcs_features_whole_ranking [where pca = pca and n = n and pcs = pcs
          and me = "case min_elbow of None \<Rightarrow> real (length (mrows pcs)) / 10 | Some m \<Rightarrow> m"])
       blast+
  then show "snd (snd (select_pcs_features le ad S curve direction online min_elbow kw)) = None"
    and "var (fst (select_pcs_features le ad S curve direction online min_elbow kw)) ''top_pcs'' =
        Some (BoolCol (replicate (length (var_names ad)) True))"
    by simp_all
qed

theorem absent_elbow_not_branched_witness:
  "fst (select_pcs no_elbow pcs_example None 1 ''convex'' ''decreasing'' False None ()) =
     pcs_example\<lparr>uns_pca := Some (example_pca\<lparr>n_pcs := Some None\<rparr>)\<rparr> \<and>
   snd (snd (select_pcs no_elbow pcs_example None 1 ''convex'' ''decreasing'' False None ())) =
     None \<and>
   select_pcs_features no_elbow
     (pcs_example\<lparr>uns_pca := Some (example_pca\<lparr>n_pcs := Some None\<rparr>)\<rparr>)
     1 ''convex'' ''decreasing'' False None () =
     (pcs_example\<lparr>uns_pca :=
        Some (example_pca\<lparr>n_pcs := Some None, features := Some Map.empty\<rparr>)\<rparr>,
      [], Some TypeError) \<and>
   snd (snd (select_pcs_features no_elbow pcs_example 1 ''convex'' ''decreasing'' False None ())) =
     None \<and>
   var (fst (select_pcs_features no_elbow pcs_example 1 ''convex'' ''decreasing'' False None ()))
     ''top_pcs'' = Some (BoolCol [True, True, True, True, True, True, True])"
  using
    absent_elbow_not_branched [where ad = pcs_example and le = no_elbow
      and x_pca = "\<lparr>ncols = 2, mrows = [[1, 2]]\<rparr>" and pca = example_pca
      and ratio = "[5 / 6, 1 / 6]" and S = 1 and min_elbow = None
      and curve = "''convex''" and direction = "''decreasing''" and online = False
      and kw = "()" and n = 2
      and pcs = "\<lparr>ncols = 2,
                 mrows = [[9, 1 / 10], [- 8, 2 / 10], [7, - 9], [1 / 10, 8], [2 / 10, - 7],
                          [3 / 10, 3 / 10], [4 / 10, 4 / 10]]\<rparr>"]
    absent_elbow_not_branched [where
      ad = "pcs_example\<lparr>uns_pca := Some (example_pca\<lparr>n_pcs := Some None\<rparr>)\<rparr>"
      and le = no_elbow and pca = "example_pca\<lparr>n_pcs := Some None\<rparr>"
      and S = 1 and min_elbow = None
      and curve = "''convex''" and direction = "''decreasing''" and online = False
      and kw = "()"
      and pcs = "\<lparr>ncols = 2,
                 mrows = [[9, 1 / 10], [- 8, 2 / 10], [7, - 9], [1 / 10, 8], [2 / 10, - 7],
                          [3 / 10, 3 / 10], [4 / 10, 4 / 10]]\<rparr>"]
  by (simp add: pcs_example_def example_pca_def no_elbow_def)

end
